theory Spec2Isabelle
  imports Main
begin

section \<open>JavaScript values\<close>

text \<open>
  The monitor is TypeScript. Its numbers are block numbers and counters: integers, modelled
  as \<open>int\<close>. An optional field (\<open>name?: string\<close>) is an \<open>option\<close>, \<open>None\<close> standing for
  \<open>undefined\<close> and for SQL \<open>NULL\<close>. A thrown value is either an \<open>Error\<close> object, of which only
  the message is ever read, or something that is not an \<open>Error\<close>.
\<close>

datatype js_error = Error string | NonError

text \<open>\<open>error instanceof Error ? error.message : dflt\<close>\<close>

definition messageOr :: "string \<Rightarrow> js_error \<Rightarrow> string" where
  "messageOr dflt e = (case e of Error m \<Rightarrow> m | NonError \<Rightarrow> dflt)"

text \<open>
  \<open>String.prototype.toLowerCase\<close> on the 8-bit characters of \<open>string\<close>: the letters A to Z
  are mapped to a to z. The patterns the code searches for are ASCII.
\<close>

definition toLowerCaseChar :: "char \<Rightarrow> char" where
  "toLowerCaseChar c =
     (case map_of (zip ''ABCDEFGHIJKLMNOPQRSTUVWXYZ'' ''abcdefghijklmnopqrstuvwxyz'') c of
        Some l \<Rightarrow> l
      | None \<Rightarrow> c)"

definition toLowerCase :: "string \<Rightarrow> string" where
  "toLowerCase s = map toLowerCaseChar s"

text \<open>\<open>s.includes(p)\<close>: \<open>p\<close> occurs in \<open>s\<close> as a contiguous substring.\<close>

fun includesStr :: "string \<Rightarrow> string \<Rightarrow> bool" where
  "includesStr [] p = (p = [])"
| "includesStr (c # cs) p = (take (length p) (c # cs) = p \<or> includesStr cs p)"

text \<open>Truthiness of an optional number and of an optional string, and \<open>x || undefined\<close>.\<close>

definition truthyNum :: "int option \<Rightarrow> bool" where
  "truthyNum x = (case x of None \<Rightarrow> False | Some n \<Rightarrow> n \<noteq> 0)"

definition truthyStr :: "string option \<Rightarrow> bool" where
  "truthyStr x = (case x of None \<Rightarrow> False | Some s \<Rightarrow> s \<noteq> [])"

definition orUndefinedNum :: "int option \<Rightarrow> int option" where
  "orUndefinedNum x = (if truthyNum x then x else None)"

definition orUndefinedStr :: "string option \<Rightarrow> string option" where
  "orUndefinedStr x = (if truthyStr x then x else None)"

text \<open>A number inside a template literal: decimal digits, with a sign when negative.\<close>

fun showNat :: "nat \<Rightarrow> string" where
  "showNat n = (if n < 10 then [''0123456789'' ! n] else showNat (n div 10) @ [''0123456789'' ! (n mod 10)])"

definition showNumber :: "int \<Rightarrow> string" where
  "showNumber i = (if i < 0 then CHR ''-'' # showNat (nat (- i)) else showNat (nat i))"

section \<open>Data model (types)\<close>

record JobInfo =
  address :: string
  name :: "string option"
  description :: "string option"
  lastWorkedBlock :: "int option"
  consecutiveWorkableBlocks :: int
  isCurrentlyWorkable :: bool
  lastCheckedBlock :: int
  alertsSent :: int
  lastAlertBlock :: "int option"

text \<open>\<open>JobStatus\<close>; its fields \<open>address\<close> and \<open>blockNumber\<close> are prefixed here.\<close>

record JobStatus =
  status_address :: string
  workable :: bool
  status_blockNumber :: int
  error :: "string option"

text \<open>\<open>AlertData\<close> without its wall-clock \<open>timestamp\<close>.\<close>

record AlertData =
  jobAddress :: string
  jobName :: "string option"
  alert_consecutiveWorkableBlocks :: int
  currentBlock :: int
  threshold :: int

text \<open>
  One row of table \<open>jobs\<close> without its primary key \<open>address\<close> (the table below is keyed by
  it) and without the two timestamps. \<open>is_currently_workable\<close> holds 1 or 0.
\<close>

record DatabaseJob =
  row_name :: "string option"
  last_worked_block :: "int option"
  consecutive_workable_blocks :: int
  is_currently_workable :: int
  last_checked_block :: int
  alerts_sent :: int
  last_alert_block :: "int option"

text \<open>The numeric settings of \<open>MonitoringConfig\<close> that the monitoring service reads.\<close>

record MonitoringConfig =
  alertThresholdBlocks :: int
  checkIntervalSeconds :: int
  maxBlocksPerQuery :: int

section \<open>The SQLite store\<close>

type_synonym jobs_table = "string \<rightharpoonup> DatabaseJob"

text \<open>
  \<open>db\<close> is the in-memory database (\<open>None\<close> until \<open>initialize\<close> has run), \<open>dbFile\<close> the image that
  \<open>save\<close> last wrote to disk.
\<close>

record SQLiteDatabase =
  db :: "jobs_table option"
  dbFile :: "jobs_table option"

definition save :: "SQLiteDatabase \<Rightarrow> SQLiteDatabase" where
  "save D = (case db D of None \<Rightarrow> D | Some t \<Rightarrow> D\<lparr>dbFile := Some t\<rparr>)"

text \<open>
  What can go wrong inside \<open>upsertJob\<close>'s \<open>try\<close>: the statement \<open>db.run\<close> throws (the table is
  then unchanged), or the statement succeeds and \<open>save\<close> throws while writing the file.
\<close>

datatype upsert_fault = NoFault | RunThrows js_error | SaveThrows js_error

definition upsertParams :: "JobInfo \<Rightarrow> DatabaseJob" where
  "upsertParams jobInfo =
     \<lparr> row_name = orUndefinedStr (name jobInfo),
       last_worked_block = orUndefinedNum (lastWorkedBlock jobInfo),
       consecutive_workable_blocks = consecutiveWorkableBlocks jobInfo,
       is_currently_workable = (if isCurrentlyWorkable jobInfo then 1 else 0),
       last_checked_block = lastCheckedBlock jobInfo,
       alerts_sent = alertsSent jobInfo,
       last_alert_block = orUndefinedNum (lastAlertBlock jobInfo) \<rparr>"

definition upsertJob ::
  "upsert_fault \<Rightarrow> JobInfo \<Rightarrow> SQLiteDatabase \<Rightarrow> (js_error + unit) \<times> SQLiteDatabase" where
  "upsertJob fault jobInfo D =
     (case db D of
        None \<Rightarrow> (Inl (Error ''Database not initialized''), D)
      | Some t \<Rightarrow>
          (case fault of
             RunThrows err \<Rightarrow> (Inl err, D)
           | SaveThrows err \<Rightarrow> (Inl err, D\<lparr>db := Some (t(address jobInfo \<mapsto> upsertParams jobInfo))\<rparr>)
           | NoFault \<Rightarrow> (Inr (), save (D\<lparr>db := Some (t(address jobInfo \<mapsto> upsertParams jobInfo))\<rparr>))))"

text \<open>
  \<open>getJob\<close>: the first argument is the exception the SQL engine raises in this call, if any.
  \<open>result.address\<close> of the selected row is the key it was selected by; no row gives an
  object whose \<open>address\<close> is undefined.
\<close>

definition getJob :: "js_error option \<Rightarrow> string \<Rightarrow> SQLiteDatabase \<Rightarrow> js_error + JobInfo option" where
  "getJob fault addr D =
     (case db D of
        None \<Rightarrow> Inl (Error ''Database not initialized'')
      | Some t \<Rightarrow>
          (case fault of
             Some err \<Rightarrow> Inl err
           | None \<Rightarrow>
               (case t addr of
                  None \<Rightarrow> Inr None
                | Some result \<Rightarrow>
                    if addr \<noteq> [] then
                      Inr (Some \<lparr> address = addr,
                                  name = orUndefinedStr (row_name result),
                                  description = None,
                                  lastWorkedBlock = orUndefinedNum (last_worked_block result),
                                  consecutiveWorkableBlocks = consecutive_workable_blocks result,
                                  isCurrentlyWorkable = (is_currently_workable result \<noteq> 0),
                                  lastCheckedBlock = last_checked_block result,
                                  alertsSent = alerts_sent result,
                                  lastAlertBlock = orUndefinedNum (last_alert_block result) \<rparr>)
                    else Inr None)))"

section \<open>The world outside the process\<close>

text \<open>
  Everything the service reads from outside during one tick. A remote answer may change from
  one attempt to the next, so the contract call is indexed by the attempt as well; each unit
  is handed to the retry wrapper once, and the registry holds each address once, so block,
  attempt and address name one call.
  \<^item> \<open>provider_getBlock\<close>: \<open>provider.getBlock('latest')\<close>, the head's number, \<open>None\<close> for null;
  \<^item> \<open>contract_workable\<close>: \<open>jobContract.workable(overrides)\<close> for an address at a block (0 stands
    for no block tag) in an attempt;
  \<^item> \<open>checkWorkTransactionInBlock\<close>: the result of the scan for a \<open>work\<close> transaction; every
    error inside it is caught there and gives \<open>false\<close>;
  \<^item> \<open>discord_sendAlert\<close>: \<open>DiscordService.sendAlert\<close>, which catches every error and returns
    whether the webhook accepted the message;
  \<^item> \<open>getJob_fault\<close>, \<open>upsertJob_fault\<close>: what the SQL engine or the file system raises when the
    row of an address is read or written while a block is processed.
\<close>

record World =
  provider_getBlock :: "js_error + int option"
  contract_workable :: "string \<Rightarrow> int \<Rightarrow> nat \<Rightarrow> js_error + bool"
  checkWorkTransactionInBlock :: "string \<Rightarrow> int \<Rightarrow> bool"
  discord_sendAlert :: "AlertData \<Rightarrow> bool"
  getJob_fault :: "string \<Rightarrow> int \<Rightarrow> js_error option"
  upsertJob_fault :: "string \<Rightarrow> int \<Rightarrow> upsert_fault"

text \<open>
  What the service does to the outside, in order: an attempt to process a block (one batch
  query of the ledger), a backoff delay in milliseconds, a block given up, and an alert handed
  to the sink together with whether the sink delivered it.
\<close>

datatype event = Attempt int nat | Backoff int | SkippedBlock int | AlertSent AlertData bool

record MonitoringService =
  database :: SQLiteDatabase
  isRunning :: bool
  monitoringInterval :: bool
  lastProcessedBlock :: int
  jobAddresses :: "string list"
  trace :: "event list"

definition emit :: "event \<Rightarrow> MonitoringService \<Rightarrow> MonitoringService" where
  "emit ev s = s\<lparr>trace := trace s @ [ev]\<rparr>"

section \<open>The ledger client\<close>

definition getLatestBlock :: "World \<Rightarrow> js_error + int" where
  "getLatestBlock w =
     (case provider_getBlock w of
        Inl err \<Rightarrow> Inl err
      | Inr None \<Rightarrow> Inl (Error ''Failed to get latest block'')
      | Inr (Some n) \<Rightarrow> Inr n)"

text \<open>The rate-limit signature that \<open>checkJobWorkable\<close> and \<open>checkMultipleJobsWorkable\<close> look for.\<close>

definition rateLimitSignature :: "string \<Rightarrow> bool" where
  "rateLimitSignature errorMessage =
     (includesStr (toLowerCase errorMessage) ''too many requests'' \<or>
      includesStr (toLowerCase errorMessage) ''rate limit'' \<or>
      includesStr (toLowerCase errorMessage) ''429'')"

definition checkJobWorkable :: "World \<Rightarrow> string \<Rightarrow> int \<Rightarrow> nat \<Rightarrow> js_error + JobStatus" where
  "checkJobWorkable w jobAddr blockNumber attempt =
     (case (case contract_workable w jobAddr blockNumber attempt of
              Inl err \<Rightarrow> Inl err
            | Inr wk \<Rightarrow>
                if blockNumber \<noteq> 0 then
                  Inr \<lparr> status_address = jobAddr, workable = wk,
                        status_blockNumber = blockNumber, error = None \<rparr>
                else
                  (case getLatestBlock w of
                     Inl err \<Rightarrow> Inl err
                   | Inr n \<Rightarrow>
                       Inr \<lparr> status_address = jobAddr, workable = wk,
                             status_blockNumber = n, error = None \<rparr>)) of
        Inr status \<Rightarrow> Inr status
      | Inl err \<Rightarrow>
          if rateLimitSignature (messageOr ''Unknown error'' err) then Inl err
          else Inr \<lparr> status_address = jobAddr, workable = False,
                     status_blockNumber = blockNumber,
                     error = Some (messageOr ''Unknown error'' err) \<rparr>)"

text \<open>A settled promise of the batch that was rejected with an \<open>Error\<close> of rate-limit signature.\<close>

definition isRateLimitingError :: "js_error + JobStatus \<Rightarrow> bool" where
  "isRateLimitingError result =
     (case result of
        Inl (Error m) \<Rightarrow> rateLimitSignature m
      | Inl NonError \<Rightarrow> False
      | Inr _ \<Rightarrow> False)"

definition checkMultipleJobsWorkable ::
  "World \<Rightarrow> string list \<Rightarrow> int \<Rightarrow> nat \<Rightarrow> js_error + JobStatus list" where
  "checkMultipleJobsWorkable w addrs blockNumber attempt =
     (let results = map (\<lambda>a. checkJobWorkable w a blockNumber attempt) addrs;
          rateLimitingErrors = filter isRateLimitingError results
      in case rateLimitingErrors of
           Inl reason # _ \<Rightarrow> Inl reason
         | _ \<Rightarrow>
             Inr (map (\<lambda>(result, a).
                        case result of
                          Inr v \<Rightarrow> v
                        | Inl reason \<Rightarrow>
                            \<lparr> status_address = a, workable = False,
                              status_blockNumber = blockNumber,
                              error = Some (messageOr ''Unknown error'' reason) \<rparr>)
                      (zip results addrs)))"

section \<open>The monitoring service\<close>

definition KNOWN_JOBS :: "(string \<times> string) list" where
  "KNOWN_JOBS =
     [(''AutoLineJob'', ''0x67AD4000e73579B9725eE3A149F85C4Af0A61361''),
      (''LerpJob'', ''0x8F8f2FC1F0380B9Ff4fE5c3142d0811aC89E32fB''),
      (''D3MJob'', ''0x2Ea4aDE144485895B923466B4521F5ebC03a0AeF''),
      (''ClipperMomJob'', ''0x7E93C4f61C8E8874e7366cDbfeFF934Ed089f9fF''),
      (''OracleJob'', ''0xe717Ec34b2707fc8c226b34be5eae8482d06ED03''),
      (''FlapJob'', ''0xc32506E9bB590971671b649d9B8e18CB6260559F'')]"

definition getJobName :: "string \<Rightarrow> string" where
  "getJobName addr =
     (case find (\<lambda>(nm, knownAddress). toLowerCase knownAddress = toLowerCase addr) KNOWN_JOBS of
        Some (nm, knownAddress) \<Rightarrow> nm
      | None \<Rightarrow> ''Job '' @ take 8 addr @ ''...'')"

text \<open>
  \<open>sendAlert\<close> hands the alert to the sink and ignores what the sink returns; nothing it does
  can throw past its own \<open>catch\<close>.
\<close>

definition sendAlert ::
  "MonitoringConfig \<Rightarrow> World \<Rightarrow> JobInfo \<Rightarrow> int \<Rightarrow> MonitoringService \<Rightarrow> MonitoringService" where
  "sendAlert cfg w jobInfo blockNumber s =
     (let alertData = \<lparr> jobAddress = address jobInfo,
                        jobName = name jobInfo,
                        alert_consecutiveWorkableBlocks = consecutiveWorkableBlocks jobInfo,
                        currentBlock = blockNumber,
                        threshold = alertThresholdBlocks cfg \<rparr>
      in emit (AlertSent alertData (discord_sendAlert w alertData)) s)"

text \<open>
  The part of \<open>processJobStatus\<close> between reading the job and writing it back: the update of
  the in-memory \<open>jobInfo\<close>. \<open>blocksSinceLastAlert\<close> is \<open>Infinity\<close> when \<open>lastAlertBlock\<close> is falsy,
  and \<open>Infinity >= threshold\<close> holds.
\<close>

definition updateJobInfo ::
  "MonitoringConfig \<Rightarrow> World \<Rightarrow> JobStatus \<Rightarrow> int \<Rightarrow> JobInfo \<Rightarrow> MonitoringService
     \<Rightarrow> JobInfo \<times> MonitoringService" where
  "updateJobInfo cfg w jobStatus blockNumber jobInfo0 s =
     (let wasWorkable = isCurrentlyWorkable jobInfo0;
          isWorkable = (workable jobStatus \<and> \<not> truthyStr (error jobStatus));
          jobInfo = jobInfo0\<lparr>isCurrentlyWorkable := isWorkable, lastCheckedBlock := blockNumber\<rparr>
      in if isWorkable then
           (let jobInfo =
                  (if wasWorkable
                   then jobInfo\<lparr>consecutiveWorkableBlocks := consecutiveWorkableBlocks jobInfo + 1\<rparr>
                   else jobInfo\<lparr>consecutiveWorkableBlocks := 1\<rparr>)
            in if consecutiveWorkableBlocks jobInfo \<ge> alertThresholdBlocks cfg then
                 (if (case lastAlertBlock jobInfo of
                        Some l \<Rightarrow> if l \<noteq> 0 then blockNumber - l \<ge> alertThresholdBlocks cfg else True
                      | None \<Rightarrow> True)
                  then (jobInfo\<lparr>alertsSent := alertsSent jobInfo + 1,
                                lastAlertBlock := Some blockNumber\<rparr>,
                        sendAlert cfg w jobInfo blockNumber s)
                  else (jobInfo, s))
               else (jobInfo, s))
         else
           (let jobInfo =
                  (if wasWorkable \<and> checkWorkTransactionInBlock w (status_address jobStatus) blockNumber
                   then jobInfo\<lparr>lastWorkedBlock := Some blockNumber\<rparr>
                   else jobInfo)
            in (jobInfo\<lparr>consecutiveWorkableBlocks := 0\<rparr>, s)))"

text \<open>
  \<open>processJobStatus\<close>: every error raised inside (by \<open>getJob\<close> or by \<open>upsertJob\<close>) is caught and
  logged by its own \<open>catch\<close>, so the function always returns.
\<close>

definition processJobStatus ::
  "MonitoringConfig \<Rightarrow> World \<Rightarrow> JobStatus \<Rightarrow> int \<Rightarrow> MonitoringService \<Rightarrow> MonitoringService" where
  "processJobStatus cfg w jobStatus blockNumber s =
     (case getJob (getJob_fault w (status_address jobStatus) blockNumber)
                  (status_address jobStatus) (database s) of
        Inl err \<Rightarrow> s
      | Inr found \<Rightarrow>
          (let jobInfo0 =
                 (case found of
                    Some j \<Rightarrow> j
                  | None \<Rightarrow>
                      \<lparr> address = status_address jobStatus,
                        name = Some (getJobName (status_address jobStatus)),
                        description = None,
                        lastWorkedBlock = None,
                        consecutiveWorkableBlocks = 0,
                        isCurrentlyWorkable = False,
                        lastCheckedBlock = blockNumber,
                        alertsSent = 0,
                        lastAlertBlock = None \<rparr>);
               (jobInfo, s1) = updateJobInfo cfg w jobStatus blockNumber jobInfo0 s
           in case upsertJob (upsertJob_fault w (status_address jobStatus) blockNumber)
                             jobInfo (database s1) of
                (res, D) \<Rightarrow> s1\<lparr>database := D\<rparr>))"

text \<open>
  \<open>processBlock\<close>, in a given attempt: the batch query, then every job status in order. Only
  the batch query can make it throw.
\<close>

definition processBlock ::
  "MonitoringConfig \<Rightarrow> World \<Rightarrow> int \<Rightarrow> nat \<Rightarrow> MonitoringService
     \<Rightarrow> (js_error + unit) \<times> MonitoringService" where
  "processBlock cfg w blockNumber attempt s =
     (case checkMultipleJobsWorkable w (jobAddresses s) blockNumber attempt of
        Inl err \<Rightarrow> (Inl err, s)
      | Inr jobStatuses \<Rightarrow>
          (Inr (), foldl (\<lambda>s' jobStatus. processJobStatus cfg w jobStatus blockNumber s')
                         s jobStatuses))"

text \<open>The rate-limit test of \<open>processBlockWithRetry\<close>, which knows one signature more.\<close>

definition isRateLimited :: "string \<Rightarrow> bool" where
  "isRateLimited errorMsg =
     (includesStr (toLowerCase errorMsg) ''rate limit'' \<or>
      includesStr (toLowerCase errorMsg) ''too many requests'' \<or>
      includesStr (toLowerCase errorMsg) ''429'' \<or>
      includesStr (toLowerCase errorMsg) ''-32005'')"

text \<open>
  \<open>processBlockWithRetry\<close>, from a given attempt on. Its first argument is the unit of work it
  wraps, \<open>this.processBlock\<close>, told which attempt it is.
\<close>

function processBlockWithRetry_from ::
  "(nat \<Rightarrow> MonitoringService \<Rightarrow> (js_error + unit) \<times> MonitoringService) \<Rightarrow> int \<Rightarrow> nat \<Rightarrow> nat
     \<Rightarrow> MonitoringService \<Rightarrow> (js_error + unit) \<times> MonitoringService" where
  "processBlockWithRetry_from work blockNumber retries attempt s =
     (if attempt < retries then
        (case work attempt (emit (Attempt blockNumber attempt) s) of
           (Inr u, s') \<Rightarrow> (Inr (), s')
         | (Inl err, s') \<Rightarrow>
             if isRateLimited (messageOr [] err)
             then processBlockWithRetry_from work blockNumber retries (attempt + 1)
                    (emit (Backoff (3 ^ (attempt + 4) * 1000)) s')
             else (Inl err, s'))
      else
        (Inl (Error (''Failed to process block '' @ showNumber blockNumber @ '' after '' @
                     showNumber (int retries) @ '' attempts due to rate limiting'')), s))"
  by pat_completeness auto
termination
  by (relation "measure (\<lambda>(work, blockNumber, retries, attempt, s). retries - attempt)") auto

definition processBlockWithRetry ::
  "(nat \<Rightarrow> MonitoringService \<Rightarrow> (js_error + unit) \<times> MonitoringService) \<Rightarrow> int \<Rightarrow> nat
     \<Rightarrow> MonitoringService \<Rightarrow> (js_error + unit) \<times> MonitoringService" where
  "processBlockWithRetry work blockNumber retries s =
     processBlockWithRetry_from work blockNumber retries 0 s"

text \<open>The \<open>for\<close> loop of \<open>monitoringLoop\<close> over the blocks of the window.\<close>

function processBlocks ::
  "MonitoringConfig \<Rightarrow> World \<Rightarrow> int \<Rightarrow> int \<Rightarrow> int \<Rightarrow> MonitoringService
     \<Rightarrow> int \<times> MonitoringService" where
  "processBlocks cfg w blockNum endBlock successfullyProcessed s =
     (if blockNum \<le> endBlock then
        (case processBlockWithRetry (processBlock cfg w blockNum) blockNum 3 s of
           (Inr u, s') \<Rightarrow> processBlocks cfg w (blockNum + 1) endBlock blockNum s'
         | (Inl err, s') \<Rightarrow>
             processBlocks cfg w (blockNum + 1) endBlock blockNum (emit (SkippedBlock blockNum) s'))
      else (successfullyProcessed, s))"
  by pat_completeness auto
termination
  by (relation "measure (\<lambda>(cfg, w, blockNum, endBlock, sp, s). nat (endBlock + 1 - blockNum))") auto

definition monitoringLoop :: "MonitoringConfig \<Rightarrow> World \<Rightarrow> MonitoringService \<Rightarrow> MonitoringService" where
  "monitoringLoop cfg w s =
     (case getLatestBlock w of
        Inl err \<Rightarrow> s
      | Inr currentBlockNumber \<Rightarrow>
          if currentBlockNumber \<le> lastProcessedBlock s then s
          else
            (let blocksToProcess = min (currentBlockNumber - lastProcessedBlock s) (maxBlocksPerQuery cfg);
                 endBlock = lastProcessedBlock s + blocksToProcess
             in case processBlocks cfg w (lastProcessedBlock s + 1) endBlock (lastProcessedBlock s) s of
                  (successfullyProcessed, s') \<Rightarrow> s'\<lparr>lastProcessedBlock := successfullyProcessed\<rparr>))"

section \<open>The scheduler\<close>

text \<open>
  \<open>start\<close>, \<open>stop\<close>, \<open>forceCheck\<close> and the timer callback, as far as they decide when an execution
  of \<open>monitoringLoop\<close> begins. The service is extended by \<open>ticksInFlight\<close>, the number of calls
  of \<open>monitoringLoop\<close> that have begun and whose promise has not settled; what a tick does to
  the rest of the state is left out here. An asynchronous call begins at once, and a timer
  callback runs whenever the timer is armed and every running call is suspended at an
  \<open>await\<close>, so a timer may fire while ticks are in flight. \<open>monitoringLoop\<close> catches every
  error, so the \<open>catch\<close> of \<open>start\<close> is never entered.
\<close>

record ScheduledService = MonitoringService +
  ticksInFlight :: nat

definition start :: "ScheduledService \<Rightarrow> ScheduledService" where
  "start s =
     (if isRunning s then s
      else s\<lparr>isRunning := True, monitoringInterval := True, ticksInFlight := ticksInFlight s + 1\<rparr>)"

text \<open>The callback given to \<open>setInterval\<close>: \<open>() => this.monitoringLoop().catch(...)\<close>.\<close>

definition timerCallback :: "ScheduledService \<Rightarrow> ScheduledService" where
  "timerCallback s = (if monitoringInterval s then s\<lparr>ticksInFlight := ticksInFlight s + 1\<rparr> else s)"

definition forceCheck :: "ScheduledService \<Rightarrow> (js_error + unit) \<times> ScheduledService" where
  "forceCheck s =
     (if \<not> isRunning s then (Inl (Error ''Monitoring service is not running''), s)
      else (Inr (), s\<lparr>ticksInFlight := ticksInFlight s + 1\<rparr>))"

definition tickSettled :: "ScheduledService \<Rightarrow> ScheduledService" where
  "tickSettled s = s\<lparr>ticksInFlight := ticksInFlight s - 1\<rparr>"

definition stop :: "ScheduledService \<Rightarrow> ScheduledService" where
  "stop s = (if \<not> isRunning s then s else s\<lparr>isRunning := False, monitoringInterval := False\<rparr>)"

datatype schedulerEvent = StartCalled | TimerFired | ForceCheckCalled | TickSettled | StopCalled

fun schedulerStep :: "ScheduledService \<Rightarrow> schedulerEvent \<Rightarrow> ScheduledService" where
  "schedulerStep s StartCalled = start s"
| "schedulerStep s TimerFired = timerCallback s"
| "schedulerStep s ForceCheckCalled = snd (forceCheck s)"
| "schedulerStep s TickSettled = tickSettled s"
| "schedulerStep s StopCalled = stop s"

section \<open>Notions used in the statements\<close>

text \<open>\<open>isWorkable\<close> of \<open>processJobStatus\<close>: the check result is workable and carries no error.\<close>

definition eligibleObservation :: "JobStatus \<Rightarrow> bool" where
  "eligibleObservation jobStatus = (workable jobStatus \<and> \<not> truthyStr (error jobStatus))"

text \<open>
  A run of observations of one job: each is a job status handed to \<open>processJobStatus\<close> at a
  block, in the world of that moment.
\<close>

definition feed ::
  "MonitoringConfig \<Rightarrow> (World \<times> JobStatus \<times> int) list \<Rightarrow> MonitoringService \<Rightarrow> MonitoringService" where
  "feed cfg obs s = foldl (\<lambda>s' (w, jobStatus, blockNumber). processJobStatus cfg w jobStatus blockNumber s') s obs"

text \<open>The length of the run of workable observations without error that ends the sequence.\<close>

definition trailingRun :: "(World \<times> JobStatus \<times> int) list \<Rightarrow> int" where
  "trailingRun obs = int (length (takeWhile (\<lambda>(w, jobStatus, blockNumber). eligibleObservation jobStatus) (rev obs)))"

text \<open>
  The job \<open>processJobStatus\<close> starts from at a block on a healthy store: the stored one, or the
  default one when the address is not tracked yet.
\<close>

definition tracked :: "string \<Rightarrow> int \<Rightarrow> MonitoringService \<Rightarrow> JobInfo" where
  "tracked a blockNumber s =
     (case getJob None a (database s) of
        Inr (Some j) \<Rightarrow> j
      | _ \<Rightarrow> \<lparr> address = a, name = Some (getJobName a), description = None,
                lastWorkedBlock = None, consecutiveWorkableBlocks = 0, isCurrentlyWorkable = False,
                lastCheckedBlock = blockNumber, alertsSent = 0, lastAlertBlock = None \<rparr>)"

text \<open>A job as it is read back once written: falsy optional fields undefined, no description.\<close>

definition asStored :: "JobInfo \<Rightarrow> JobInfo" where
  "asStored j = j\<lparr> name := orUndefinedStr (name j), description := None,
                   lastWorkedBlock := orUndefinedNum (lastWorkedBlock j),
                   lastAlertBlock := orUndefinedNum (lastAlertBlock j) \<rparr>"

text \<open>The blocks at which an alert for an address was handed to the sink, in order.\<close>

definition alertsFor :: "string \<Rightarrow> MonitoringService \<Rightarrow> int list" where
  "alertsFor a s = concat (map (\<lambda>ev. case ev of AlertSent d ok \<Rightarrow> if jobAddress d = a then [currentBlock d] else [] | _ \<Rightarrow> []) (trace s))"

text \<open>The blocks of a run of observations.\<close>

definition unitsOf :: "(World \<times> JobStatus \<times> int) list \<Rightarrow> int list" where
  "unitsOf obs = map (\<lambda>(w, jobStatus, blockNumber). blockNumber) obs"

text \<open>The test under which the in-memory update sends an alert.\<close>

definition alertDue :: "MonitoringConfig \<Rightarrow> JobStatus \<Rightarrow> int \<Rightarrow> JobInfo \<Rightarrow> bool" where
  "alertDue cfg jobStatus b j =
     (eligibleObservation jobStatus \<and>
      alertThresholdBlocks cfg \<le> (if isCurrentlyWorkable j then consecutiveWorkableBlocks j + 1 else 1) \<and>
      (case lastAlertBlock j of None \<Rightarrow> True | Some l \<Rightarrow> l = 0 \<or> alertThresholdBlocks cfg \<le> b - l))"

text \<open>
  What holds of one entity's stored state and of the alerts sent for it after any run of
  observations at increasing positive units, from a state where it was never alerted.
\<close>

definition alertInvariant ::
  "MonitoringConfig \<Rightarrow> string \<Rightarrow> int list \<Rightarrow> MonitoringService \<Rightarrow> bool" where
  "alertInvariant cfg a units s =
     (let j = tracked a 0 s; us = alertsFor a s in
        0 \<le> consecutiveWorkableBlocks j \<and>
        sorted_wrt (\<lambda>u v. alertThresholdBlocks cfg \<le> v - u) us \<and>
        (case lastAlertBlock j of
           None \<Rightarrow> us = []
         | Some l \<Rightarrow>
             us \<noteq> [] \<and> last us = l \<and> (\<forall>u \<in> set us. u \<le> l) \<and> l \<le> lastCheckedBlock j \<and>
             lastCheckedBlock j \<in> set units \<and>
             ((alertThresholdBlocks cfg \<le> consecutiveWorkableBlocks j \<and> isCurrentlyWorkable j) \<or>
              l + consecutiveWorkableBlocks j < lastCheckedBlock j)))"

text \<open>What the retry wrapper itself records: attempts and delays.\<close>

definition isRetryEvent :: "event \<Rightarrow> bool" where
  "isRetryEvent ev = (case ev of Attempt b k \<Rightarrow> True | Backoff ms \<Rightarrow> True | _ \<Rightarrow> False)"

definition retryEvents :: "MonitoringService \<Rightarrow> event list" where
  "retryEvents s = filter isRetryEvent (trace s)"

text \<open>The attempts the retry wrapper may make for a block, each followed by its backoff.\<close>

definition retrySchedule :: "int \<Rightarrow> nat \<Rightarrow> nat \<Rightarrow> event list" where
  "retrySchedule blockNumber attempt retries =
     concat (map (\<lambda>k. [Attempt blockNumber k, Backoff (3 ^ (k + 4) * 1000)]) [attempt ..< retries])"

text \<open>The message of the error raised once the retry budget is used up.\<close>

definition exhaustedMessage :: "int \<Rightarrow> nat \<Rightarrow> string" where
  "exhaustedMessage blockNumber retries =
     ''Failed to process block '' @ showNumber blockNumber @ '' after '' @ showNumber (int retries) @
     '' attempts due to rate limiting''"

text \<open>The blocks for which a batch query was issued, in the order of the queries.\<close>

definition attemptedBlocks :: "MonitoringService \<Rightarrow> int list" where
  "attemptedBlocks s = concat (map (\<lambda>ev. case ev of Attempt b k \<Rightarrow> [b] | _ \<Rightarrow> []) (retryEvents s))"

text \<open>The blocks the loop gave up, in order.\<close>

definition skippedBlocks :: "MonitoringService \<Rightarrow> int list" where
  "skippedBlocks s = concat (map (\<lambda>ev. case ev of SkippedBlock b \<Rightarrow> [b] | _ \<Rightarrow> []) (trace s))"

text \<open>The result \<open>checkJobWorkable\<close> returns for a failure without rate-limit signature.\<close>

definition errorResult :: "string \<Rightarrow> int \<Rightarrow> js_error \<Rightarrow> JobStatus" where
  "errorResult a b err =
     \<lparr> status_address = a, workable = False, status_blockNumber = b,
       error = Some (messageOr ''Unknown error'' err) \<rparr>"

text \<open>The state with the delivery flag of every recorded alert forgotten.\<close>

definition eraseDelivery :: "MonitoringService \<Rightarrow> MonitoringService" where
  "eraseDelivery s =
     s\<lparr>trace := map (\<lambda>ev. case ev of AlertSent d ok \<Rightarrow> AlertSent d False | _ \<Rightarrow> ev) (trace s)\<rparr>"

section \<open>Example inputs\<close>

definition exampleConfig :: MonitoringConfig where
  "exampleConfig = \<lparr> alertThresholdBlocks = 2, checkIntervalSeconds = 30, maxBlocksPerQuery = 100 \<rparr>"

definition autoLineJob :: string where
  "autoLineJob = ''0x67AD4000e73579B9725eE3A149F85C4Af0A61361''"

definition quietWorld :: World where
  "quietWorld = \<lparr> provider_getBlock = Inr (Some 4),
                   contract_workable = (\<lambda>a b k. Inr True),
                   checkWorkTransactionInBlock = (\<lambda>a b. False),
                   discord_sendAlert = (\<lambda>d. True),
                   getJob_fault = (\<lambda>a b. None),
                   upsertJob_fault = (\<lambda>a b. NoFault) \<rparr>"

definition emptyDatabase :: SQLiteDatabase where
  "emptyDatabase = \<lparr> db = Some Map.empty, dbFile = Some Map.empty \<rparr>"

definition freshService :: MonitoringService where
  "freshService = \<lparr> database = emptyDatabase, isRunning = True, monitoringInterval = True,
                     lastProcessedBlock = 0, jobAddresses = [autoLineJob], trace = [] \<rparr>"

definition workableAt :: "int \<Rightarrow> JobStatus" where
  "workableAt b = \<lparr> status_address = autoLineJob, workable = True, status_blockNumber = b, error = None \<rparr>"

definition fourWorkableBlocks :: "(World \<times> JobStatus \<times> int) list" where
  "fourWorkableBlocks = [(quietWorld, workableAt 1, 1), (quietWorld, workableAt 2, 2),
                         (quietWorld, workableAt 3, 3), (quietWorld, workableAt 4, 4)]"

definition failingAt :: "int \<Rightarrow> JobStatus" where
  "failingAt b = \<lparr> status_address = autoLineJob, workable = False, status_blockNumber = b,
                    error = Some ''execution reverted'' \<rparr>"

definition brokenRun :: "(World \<times> JobStatus \<times> int) list" where
  "brokenRun = [(quietWorld, workableAt 1, 1), (quietWorld, workableAt 2, 2),
                (quietWorld, failingAt 3, 3), (quietWorld, workableAt 4, 4)]"

definition mockJob :: JobInfo where
  "mockJob = \<lparr> address = ''0x67AD4000e73579B9725eE3A149F85C4Af0A61361'',
               name = Some ''AutoLineJob'', description = None, lastWorkedBlock = None,
               consecutiveWorkableBlocks = 5, isCurrentlyWorkable = True,
               lastCheckedBlock = 18500000, alertsSent = 1, lastAlertBlock = Some 18499995 \<rparr>"

definition workableOnceTable :: jobs_table where
  "workableOnceTable =
     [autoLineJob \<mapsto>
        \<lparr> row_name = Some ''AutoLineJob'', last_worked_block = None,
          consecutive_workable_blocks = 1, is_currently_workable = 1,
          last_checked_block = 1, alerts_sent = 0, last_alert_block = None \<rparr>]"

definition workableOnceService :: MonitoringService where
  "workableOnceService =
     freshService\<lparr>database := \<lparr> db = Some workableOnceTable, dbFile = Some workableOnceTable \<rparr>\<rparr>"

definition threeWorkableBlocks :: "(World \<times> JobStatus \<times> int) list" where
  "threeWorkableBlocks = [(quietWorld, workableAt 2, 2), (quietWorld, workableAt 3, 3),
                          (quietWorld, workableAt 4, 4)]"

definition rateLimitedWorld :: World where
  "rateLimitedWorld =
     quietWorld\<lparr>provider_getBlock := Inr (Some 2),
                contract_workable := (\<lambda>a b k. Inl (Error ''429 Too Many Requests''))\<rparr>"

text \<open>A unit of work that is rate limited in every attempt, and one that fails otherwise.\<close>

definition alwaysRateLimited :: "nat \<Rightarrow> MonitoringService \<Rightarrow> (js_error + unit) \<times> MonitoringService" where
  "alwaysRateLimited k s = (Inl (Error ''429 Too Many Requests''), s)"

definition alwaysReverting :: "nat \<Rightarrow> MonitoringService \<Rightarrow> (js_error + unit) \<times> MonitoringService" where
  "alwaysReverting k s = (Inl (Error ''execution reverted''), s)"

definition lerpJob :: string where
  "lerpJob = ''0x8F8f2FC1F0380B9Ff4fE5c3142d0811aC89E32fB''"

text \<open>A ledger on which the first known job's call reverts and every other job is workable.\<close>

definition revertingWorld :: World where
  "revertingWorld =
     quietWorld\<lparr>contract_workable :=
       (\<lambda>a b k. if a = autoLineJob then Inl (Error ''execution reverted'') else Inr True)\<rparr>"

definition failingSinkWorld :: World where
  "failingSinkWorld = quietWorld\<lparr>discord_sendAlert := (\<lambda>d. False)\<rparr>"

text \<open>Two jobs as \<open>initializeJobTracking\<close> registers them, and a store that cannot write the first.\<close>

definition initialRow :: "string \<Rightarrow> DatabaseJob" where
  "initialRow nm =
     \<lparr> row_name = Some nm, last_worked_block = None, consecutive_workable_blocks = 0,
       is_currently_workable = 0, last_checked_block = 0, alerts_sent = 0, last_alert_block = None \<rparr>"

definition twoJobsTable :: jobs_table where
  "twoJobsTable = [autoLineJob \<mapsto> initialRow ''AutoLineJob'', lerpJob \<mapsto> initialRow ''LerpJob'']"

definition twoJobsService :: MonitoringService where
  "twoJobsService =
     \<lparr> database = \<lparr> db = Some twoJobsTable, dbFile = Some twoJobsTable \<rparr>,
       isRunning = True, monitoringInterval = True, lastProcessedBlock = 0,
       jobAddresses = [autoLineJob, lerpJob], trace = [] \<rparr>"

definition brokenStoreWorld :: World where
  "brokenStoreWorld =
     quietWorld\<lparr>provider_getBlock := Inr (Some 1),
                upsertJob_fault := (\<lambda>a b. if a = autoLineJob then RunThrows (Error ''disk I/O error'')
                                          else NoFault)\<rparr>"

definition idleService :: ScheduledService where
  "idleService =
     \<lparr> database = emptyDatabase, isRunning = False, monitoringInterval = False,
       lastProcessedBlock = 0, jobAddresses = [autoLineJob], trace = [], ticksInFlight = 0 \<rparr>"

section \<open>The store and one observation\<close>

declare processBlocks.simps [simp del] processBlockWithRetry_from.simps [simp del]

lemma getJob_upsertJob:
  "db D = Some t \<Longrightarrow> address j \<noteq> [] \<Longrightarrow>
   getJob None (address j) (snd (upsertJob NoFault j D)) = Inr (Some (asStored j))"
  by (simp add: upsertJob_def getJob_def save_def upsertParams_def asStored_def
      orUndefinedNum_def orUndefinedStr_def truthyNum_def truthyStr_def)

lemma db_upsertJob_NoFault:
  "db D = Some t \<Longrightarrow> db (snd (upsertJob NoFault j D)) = Some (t(address j \<mapsto> upsertParams j))"
  by (simp add: upsertJob_def save_def)

lemma getJob_total: "db D = Some t \<Longrightarrow> \<exists>found. getJob None a D = Inr found"
  by (simp add: getJob_def split: option.splits)

lemma getJob_address: "getJob fault a D = Inr (Some j) \<Longrightarrow> address j = a"
  by (auto simp: getJob_def split: option.splits if_splits)

lemma updateJobInfo_address [simp]:
  "address (fst (updateJobInfo cfg w jobStatus b j s)) = address j"
  by (simp add: updateJobInfo_def Let_def)

lemma updateJobInfo_database [simp]:
  "database (snd (updateJobInfo cfg w jobStatus b j s)) = database s"
  by (simp add: updateJobInfo_def Let_def sendAlert_def emit_def)

lemma updateJobInfo_counter:
  "consecutiveWorkableBlocks (fst (updateJobInfo cfg w jobStatus b j s)) =
     (if eligibleObservation jobStatus
      then (if isCurrentlyWorkable j then consecutiveWorkableBlocks j + 1 else 1) else 0)"
  by (simp add: updateJobInfo_def Let_def eligibleObservation_def)

lemma updateJobInfo_isCurrentlyWorkable:
  "isCurrentlyWorkable (fst (updateJobInfo cfg w jobStatus b j s)) = eligibleObservation jobStatus"
  by (simp add: updateJobInfo_def Let_def eligibleObservation_def)

lemma processJobStatus_tracked:
  assumes "db (database s) = Some t" and "status_address jobStatus \<noteq> []"
    and "getJob_fault w (status_address jobStatus) b = None"
    and "upsertJob_fault w (status_address jobStatus) b = NoFault"
  shows "getJob None (status_address jobStatus) (database (processJobStatus cfg w jobStatus b s)) =
           Inr (Some (asStored (fst (updateJobInfo cfg w jobStatus b (tracked (status_address jobStatus) b s) s))))"
proof -
  let ?a = "status_address jobStatus"
  obtain found where g: "getJob None ?a (database s) = Inr found"
    using getJob_total [OF assms(1)] by blast
  let ?j0 = "tracked ?a b s"
  have adr: "address ?j0 = ?a"
    using g by (cases found) (auto simp: tracked_def dest: getJob_address)
  obtain j1 s1 where u: "updateJobInfo cfg w jobStatus b ?j0 s = (j1, s1)"
    by (cases "updateJobInfo cfg w jobStatus b ?j0 s")
  have a1: "address j1 = ?a" using updateJobInfo_address [of cfg w jobStatus b ?j0 s] u adr by simp
  have d1: "database s1 = database s" using updateJobInfo_database [of cfg w jobStatus b ?j0 s] u by simp
  have "processJobStatus cfg w jobStatus b s = s1\<lparr>database := snd (upsertJob NoFault j1 (database s1))\<rparr>"
    using g u assms(3,4) by (cases found) (simp_all add: processJobStatus_def tracked_def split: prod.splits)
  then show ?thesis
    using getJob_upsertJob [of "database s" t j1] assms(1,2) a1 d1 u by simp
qed

lemma db_upsertJob:
  "db D = Some t \<Longrightarrow> \<exists>t'. db (snd (upsertJob fault j D)) = Some t'"
  by (cases fault) (simp_all add: upsertJob_def save_def)

lemma processJobStatus_db:
  assumes "db (database s) = Some t"
  shows "\<exists>t'. db (database (processJobStatus cfg w jobStatus b s)) = Some t'"
proof (cases "getJob (getJob_fault w (status_address jobStatus) b) (status_address jobStatus) (database s)")
  case (Inl err)
  then show ?thesis using assms by (simp add: processJobStatus_def)
next
  case (Inr found)
  define j0 where "j0 = (case found of Some j \<Rightarrow> j
      | None \<Rightarrow> \<lparr> address = status_address jobStatus, name = Some (getJobName (status_address jobStatus)),
          description = None, lastWorkedBlock = None, consecutiveWorkableBlocks = 0,
          isCurrentlyWorkable = False, lastCheckedBlock = b, alertsSent = 0, lastAlertBlock = None \<rparr>)"
  obtain j1 s1 where u: "updateJobInfo cfg w jobStatus b j0 s = (j1, s1)"
    by (cases "updateJobInfo cfg w jobStatus b j0 s")
  have d1: "database s1 = database s" using updateJobInfo_database [of cfg w jobStatus b j0 s] u by simp
  have "database (processJobStatus cfg w jobStatus b s) =
          snd (upsertJob (upsertJob_fault w (status_address jobStatus) b) j1 (database s))"
    using Inr u d1 by (simp add: processJobStatus_def j0_def split: prod.splits)
  then show ?thesis using db_upsertJob [OF assms] by simp
qed

lemma feed_snoc:
  "feed cfg (obs @ [(w, jobStatus, b)]) s = processJobStatus cfg w jobStatus b (feed cfg obs s)"
  by (simp add: feed_def)

lemma feed_db:
  "db (database s) = Some t \<Longrightarrow> \<exists>t'. db (database (feed cfg obs s)) = Some t'"
proof (induction obs rule: rev_induct)
  case Nil
  then show ?case by (simp add: feed_def)
next
  case (snoc x obs)
  obtain w jobStatus b where x: "x = (w, jobStatus, b)" by (cases x)
  from snoc obtain t' where "db (database (feed cfg obs s)) = Some t'" by blast
  then show ?case unfolding x feed_snoc by (rule processJobStatus_db)
qed

lemma trailingRun_snoc:
  "trailingRun (obs @ [(w, jobStatus, b)]) = (if eligibleObservation jobStatus then trailingRun obs + 1 else 0)"
  by (simp add: trailingRun_def)

lemma tracked_getJob:
  "getJob None a (database s) = Inr (Some j) \<Longrightarrow> tracked a b s = j"
  by (simp add: tracked_def)

lemma asStored_counter [simp]:
  "consecutiveWorkableBlocks (asStored j) = consecutiveWorkableBlocks j"
  "isCurrentlyWorkable (asStored j) = isCurrentlyWorkable j"
  "lastCheckedBlock (asStored j) = lastCheckedBlock j"
  "alertsSent (asStored j) = alertsSent j"
  "address (asStored j) = address j"
  by (simp_all add: asStored_def)

lemma feed_counter:
  assumes "db (database s) = Some t" and "a \<noteq> []"
    and "consecutiveWorkableBlocks (tracked a b0 s) = 0" and "\<not> isCurrentlyWorkable (tracked a b0 s)"
    and "\<forall>(w, jobStatus, b) \<in> set obs. status_address jobStatus = a \<and>
            getJob_fault w a b = None \<and> upsertJob_fault w a b = NoFault"
  shows "consecutiveWorkableBlocks (tracked a b1 (feed cfg obs s)) = trailingRun obs \<and>
         isCurrentlyWorkable (tracked a b1 (feed cfg obs s)) = (0 < trailingRun obs)"
  using assms(5)
proof (induction obs arbitrary: b1 rule: rev_induct)
  case Nil
  have "consecutiveWorkableBlocks (tracked a b1 s) = consecutiveWorkableBlocks (tracked a b0 s)"
       "isCurrentlyWorkable (tracked a b1 s) = isCurrentlyWorkable (tracked a b0 s)"
    by (simp_all add: tracked_def split: sum.splits option.splits)
  then show ?case using assms(3,4) by (simp add: feed_def trailingRun_def)
next
  case (snoc x obs)
  obtain w jobStatus b where x: "x = (w, jobStatus, b)" by (cases x)
  have ok: "status_address jobStatus = a" "getJob_fault w a b = None" "upsertJob_fault w a b = NoFault"
    using snoc.prems by (auto simp: x)
  have ih: "consecutiveWorkableBlocks (tracked a b (feed cfg obs s)) = trailingRun obs"
           "isCurrentlyWorkable (tracked a b (feed cfg obs s)) = (0 < trailingRun obs)"
    using snoc.IH [of b] snoc.prems by auto
  obtain t' where t': "db (database (feed cfg obs s)) = Some t'"
    using feed_db [OF assms(1)] by blast
  have nonneg: "0 \<le> trailingRun obs" by (simp add: trailingRun_def)
  have "getJob None a (database (feed cfg (obs @ [x]) s)) =
          Inr (Some (asStored (fst (updateJobInfo cfg w jobStatus b (tracked a b (feed cfg obs s)) (feed cfg obs s)))))"
    unfolding x feed_snoc
    using processJobStatus_tracked [of "feed cfg obs s" t' jobStatus w b cfg] t' ok assms(2) by simp
  then have "tracked a b1 (feed cfg (obs @ [x]) s) =
          asStored (fst (updateJobInfo cfg w jobStatus b (tracked a b (feed cfg obs s)) (feed cfg obs s)))"
    by (rule tracked_getJob)
  then show ?case
    using ih nonneg
    by (simp add: x trailingRun_snoc updateJobInfo_counter updateJobInfo_isCurrentlyWorkable)
qed

section \<open>The alert rule in one observation and over a run\<close>

lemma updateJobInfo_alertsFor:
  "alertsFor (address j) (snd (updateJobInfo cfg w jobStatus b j s)) =
     alertsFor (address j) s @ (if alertDue cfg jobStatus b j then [b] else [])"
  by (auto simp: updateJobInfo_def Let_def eligibleObservation_def sendAlert_def emit_def alertsFor_def
      alertDue_def split: option.splits)

lemma updateJobInfo_alertsSent:
  "alertsSent (fst (updateJobInfo cfg w jobStatus b j s)) =
     (if alertDue cfg jobStatus b j then alertsSent j + 1 else alertsSent j)"
  by (auto simp: updateJobInfo_def Let_def eligibleObservation_def alertDue_def split: option.splits)

lemma updateJobInfo_lastAlertBlock:
  "lastAlertBlock (fst (updateJobInfo cfg w jobStatus b j s)) =
     (if alertDue cfg jobStatus b j then Some b else lastAlertBlock j)"
  by (auto simp: updateJobInfo_def Let_def eligibleObservation_def alertDue_def split: option.splits)

lemma updateJobInfo_lastCheckedBlock:
  "lastCheckedBlock (fst (updateJobInfo cfg w jobStatus b j s)) = b"
  by (auto simp: updateJobInfo_def Let_def)

lemma processJobStatus_trace:
  assumes "db (database s) = Some t"
    and "getJob_fault w (status_address jobStatus) b = None"
  shows "trace (processJobStatus cfg w jobStatus b s) =
         trace (snd (updateJobInfo cfg w jobStatus b (tracked (status_address jobStatus) b s) s))"
proof -
  let ?a = "status_address jobStatus"
  obtain found where g: "getJob None ?a (database s) = Inr found"
    using getJob_total [OF assms(1)] by blast
  show ?thesis
    using g assms(2) by (cases found) (simp_all add: processJobStatus_def tracked_def split: prod.splits)
qed

lemma tracked_address:
  "address (tracked a b s) = a"
  by (auto simp: tracked_def split: sum.splits option.splits dest: getJob_address)

lemma tracked_lastAlertBlock_nonzero:
  "lastAlertBlock (tracked a b s) \<noteq> Some 0"
  by (auto simp: tracked_def getJob_def orUndefinedNum_def truthyNum_def split: sum.splits option.splits if_splits)

lemma alertsFor_cong: "trace s = trace s' \<Longrightarrow> alertsFor a s = alertsFor a s'"
  by (simp add: alertsFor_def)

lemma orUndefinedNum_id: "x \<noteq> Some 0 \<Longrightarrow> orUndefinedNum x = x"
  by (cases x) (simp_all add: orUndefinedNum_def truthyNum_def)

lemma asStored_lastAlertBlock:
  "lastAlertBlock j \<noteq> Some 0 \<Longrightarrow> lastAlertBlock (asStored j) = lastAlertBlock j"
  by (simp add: asStored_def orUndefinedNum_id)

text \<open>One observation of a healthy store, in terms of the in-memory update.\<close>

lemma processJobStatus_step:
  assumes "db (database s) = Some t" and "a \<noteq> []" and "status_address jobStatus = a"
    and "getJob_fault w a b = None" and "upsertJob_fault w a b = NoFault"
  shows "tracked a b' (processJobStatus cfg w jobStatus b s) =
           asStored (fst (updateJobInfo cfg w jobStatus b (tracked a b s) s))"
    and "alertsFor a (processJobStatus cfg w jobStatus b s) =
           alertsFor a (snd (updateJobInfo cfg w jobStatus b (tracked a b s) s))"
proof -
  have "getJob None a (database (processJobStatus cfg w jobStatus b s)) =
          Inr (Some (asStored (fst (updateJobInfo cfg w jobStatus b (tracked a b s) s))))"
    using processJobStatus_tracked [of s t jobStatus w b cfg] assms(1,2,4,5)
    unfolding assms(3) by blast
  then show "tracked a b' (processJobStatus cfg w jobStatus b s) =
           asStored (fst (updateJobInfo cfg w jobStatus b (tracked a b s) s))"
    by (rule tracked_getJob)
  show "alertsFor a (processJobStatus cfg w jobStatus b s) =
           alertsFor a (snd (updateJobInfo cfg w jobStatus b (tracked a b s) s))"
    using processJobStatus_trace [of s t w jobStatus b cfg] assms(1,4)
    unfolding assms(3) by (intro alertsFor_cong) blast
qed

lemma processJobStatus_alert_step:
  assumes "db (database s) = Some t" and "a \<noteq> []" and "status_address jobStatus = a"
    and "getJob_fault w a b = None" and "upsertJob_fault w a b = NoFault" and "b \<noteq> 0"
  shows "alertsFor a (processJobStatus cfg w jobStatus b s) =
           alertsFor a s @ (if alertDue cfg jobStatus b (tracked a b s) then [b] else [])"
    and "lastAlertBlock (tracked a b' (processJobStatus cfg w jobStatus b s)) =
           (if alertDue cfg jobStatus b (tracked a b s) then Some b else lastAlertBlock (tracked a b s))"
    and "alertsSent (tracked a b' (processJobStatus cfg w jobStatus b s)) =
           (if alertDue cfg jobStatus b (tracked a b s) then alertsSent (tracked a b s) + 1
            else alertsSent (tracked a b s))"
    and "consecutiveWorkableBlocks (tracked a b' (processJobStatus cfg w jobStatus b s)) =
           (if eligibleObservation jobStatus
            then (if isCurrentlyWorkable (tracked a b s) then consecutiveWorkableBlocks (tracked a b s) + 1 else 1)
            else 0)"
    and "isCurrentlyWorkable (tracked a b' (processJobStatus cfg w jobStatus b s)) = eligibleObservation jobStatus"
    and "lastCheckedBlock (tracked a b' (processJobStatus cfg w jobStatus b s)) = b"
proof -
  note st = processJobStatus_step [OF assms(1-5)]
  have nz: "lastAlertBlock (tracked a b s) \<noteq> Some 0" by (rule tracked_lastAlertBlock_nonzero)
  have ad: "address (tracked a b s) = a" by (rule tracked_address)
  show "alertsFor a (processJobStatus cfg w jobStatus b s) =
           alertsFor a s @ (if alertDue cfg jobStatus b (tracked a b s) then [b] else [])"
    using updateJobInfo_alertsFor [of "tracked a b s" cfg w jobStatus b s]
    by (simp only: st(2) ad)
  have la: "lastAlertBlock (fst (updateJobInfo cfg w jobStatus b (tracked a b s) s)) \<noteq> Some 0"
    using nz assms(6) by (simp add: updateJobInfo_lastAlertBlock)
  show "lastAlertBlock (tracked a b' (processJobStatus cfg w jobStatus b s)) =
           (if alertDue cfg jobStatus b (tracked a b s) then Some b else lastAlertBlock (tracked a b s))"
    by (simp only: st(1) asStored_lastAlertBlock [OF la] updateJobInfo_lastAlertBlock)
  show "alertsSent (tracked a b' (processJobStatus cfg w jobStatus b s)) =
           (if alertDue cfg jobStatus b (tracked a b s) then alertsSent (tracked a b s) + 1
            else alertsSent (tracked a b s))"
    by (simp only: st(1) asStored_counter updateJobInfo_alertsSent)
  show "consecutiveWorkableBlocks (tracked a b' (processJobStatus cfg w jobStatus b s)) =
           (if eligibleObservation jobStatus
            then (if isCurrentlyWorkable (tracked a b s) then consecutiveWorkableBlocks (tracked a b s) + 1 else 1)
            else 0)"
    by (simp only: st(1) asStored_counter updateJobInfo_counter)
  show "isCurrentlyWorkable (tracked a b' (processJobStatus cfg w jobStatus b s)) = eligibleObservation jobStatus"
    by (simp only: st(1) asStored_counter updateJobInfo_isCurrentlyWorkable)
  show "lastCheckedBlock (tracked a b' (processJobStatus cfg w jobStatus b s)) = b"
    by (simp only: st(1) asStored_counter updateJobInfo_lastCheckedBlock)
qed

lemma tracked_block_irrelevant:
  "consecutiveWorkableBlocks (tracked a b s) = consecutiveWorkableBlocks (tracked a b' s)"
  "isCurrentlyWorkable (tracked a b s) = isCurrentlyWorkable (tracked a b' s)"
  "lastAlertBlock (tracked a b s) = lastAlertBlock (tracked a b' s)"
  "alertsSent (tracked a b s) = alertsSent (tracked a b' s)"
  by (simp_all add: tracked_def split: sum.splits option.splits)

lemma alertDue_irrelevant:
  "alertDue cfg jobStatus b (tracked a b' s) = alertDue cfg jobStatus b (tracked a b'' s)"
  unfolding alertDue_def
  using tracked_block_irrelevant [of a b' s b''] by simp

lemma alertInvariant_step:
  assumes db: "db (database s) = Some t" and a: "a \<noteq> []" and T: "1 \<le> alertThresholdBlocks cfg"
    and js: "status_address jobStatus = a"
    and nf: "getJob_fault w a b = None" "upsertJob_fault w a b = NoFault"
    and pos: "0 < b" and later: "\<forall>u \<in> set units. u < b"
    and inv: "alertInvariant cfg a units s"
  shows "alertInvariant cfg a (units @ [b]) (processJobStatus cfg w jobStatus b s)"
proof -
  let ?T = "alertThresholdBlocks cfg"
  let ?j = "tracked a 0 s"
  let ?s' = "processJobStatus cfg w jobStatus b s"
  let ?j' = "tracked a 0 ?s'"
  let ?due = "alertDue cfg jobStatus b ?j"
  have b0: "b \<noteq> 0" using pos by simp
  note step = processJobStatus_alert_step [OF db a js nf b0]
  have due: "alertDue cfg jobStatus b (tracked a b s) = ?due" by (rule alertDue_irrelevant)
  have c: "consecutiveWorkableBlocks (tracked a b s) = consecutiveWorkableBlocks ?j"
    and wk: "isCurrentlyWorkable (tracked a b s) = isCurrentlyWorkable ?j"
    and la: "lastAlertBlock (tracked a b s) = lastAlertBlock ?j"
    by (rule tracked_block_irrelevant)+
  have us': "alertsFor a ?s' = alertsFor a s @ (if ?due then [b] else [])"
    using step(1) due by simp
  have la': "lastAlertBlock ?j' = (if ?due then Some b else lastAlertBlock ?j)"
    using step(2) [of 0] due la by simp
  have c': "consecutiveWorkableBlocks ?j' =
      (if eligibleObservation jobStatus then (if isCurrentlyWorkable ?j then consecutiveWorkableBlocks ?j + 1 else 1) else 0)"
    using step(4) [of 0] c wk by simp
  have wk': "isCurrentlyWorkable ?j' = eligibleObservation jobStatus" by (rule step(5))
  have lc': "lastCheckedBlock ?j' = b" by (rule step(6))
  have c0: "0 \<le> consecutiveWorkableBlocks ?j"
    and sw: "sorted_wrt (\<lambda>u v. ?T \<le> v - u) (alertsFor a s)"
    and rest: "(case lastAlertBlock ?j of
           None \<Rightarrow> alertsFor a s = []
         | Some l \<Rightarrow>
             alertsFor a s \<noteq> [] \<and> last (alertsFor a s) = l \<and> (\<forall>u \<in> set (alertsFor a s). u \<le> l) \<and> l \<le> lastCheckedBlock ?j \<and>
             lastCheckedBlock ?j \<in> set units \<and>
             ((?T \<le> consecutiveWorkableBlocks ?j \<and> isCurrentlyWorkable ?j) \<or>
              l + consecutiveWorkableBlocks ?j < lastCheckedBlock ?j))"
    using inv by (simp_all add: alertInvariant_def Let_def)
  have c0': "0 \<le> consecutiveWorkableBlocks ?j'" using c' c0 by simp
  show ?thesis
  proof (cases ?due)
    case True
    have el: "eligibleObservation jobStatus"
      and reach: "?T \<le> (if isCurrentlyWorkable ?j then consecutiveWorkableBlocks ?j + 1 else 1)"
      using True by (simp_all add: alertDue_def)
    have sep: "\<forall>u \<in> set (alertsFor a s). ?T \<le> b - u"
    proof (cases "lastAlertBlock ?j")
      case None
      then show ?thesis using rest by simp
    next
      case (Some l)
      have "l \<noteq> 0" using tracked_lastAlertBlock_nonzero [of a 0 s] Some by auto
      then have "?T \<le> b - l" using True Some by (simp add: alertDue_def)
      moreover have "\<forall>u \<in> set (alertsFor a s). u \<le> l" using rest Some by simp
      ultimately show ?thesis by fastforce
    qed
    have le: "\<forall>u \<in> set (alertsFor a s). u \<le> b" using sep T by fastforce
    have "sorted_wrt (\<lambda>u v. ?T \<le> v - u) (alertsFor a s @ [b])"
      using sw sep by (simp add: sorted_wrt_append)
    then show ?thesis
      using True us' la' c' wk' lc' c0' el reach le
      by (simp add: alertInvariant_def Let_def)
  next
    case False
    have usame: "alertsFor a ?s' = alertsFor a s" using us' False by simp
    have lsame: "lastAlertBlock ?j' = lastAlertBlock ?j" using la' False by simp
    show ?thesis
    proof (cases "lastAlertBlock ?j")
      case None
      then show ?thesis using usame lsame rest c0' sw by (simp add: alertInvariant_def Let_def)
    next
      case (Some l)
      have r: "alertsFor a s \<noteq> []" "last (alertsFor a s) = l" "\<forall>u \<in> set (alertsFor a s). u \<le> l"
        "l \<le> lastCheckedBlock ?j" "lastCheckedBlock ?j \<in> set units"
        "(?T \<le> consecutiveWorkableBlocks ?j \<and> isCurrentlyWorkable ?j) \<or>
              l + consecutiveWorkableBlocks ?j < lastCheckedBlock ?j"
        using rest Some by simp_all
      have lt: "lastCheckedBlock ?j < b" using r(5) later by blast
      have d: "(?T \<le> consecutiveWorkableBlocks ?j' \<and> isCurrentlyWorkable ?j') \<or>
              l + consecutiveWorkableBlocks ?j' < lastCheckedBlock ?j'"
        using r(4,6) lt c0 by (auto simp: c' wk' lc')
      have "l \<le> lastCheckedBlock ?j'" using r(4) lt lc' by simp
      then show ?thesis
        using usame lsame Some r(1,2,3) d c0' sw lc'
        by (simp add: alertInvariant_def Let_def)
    qed
  qed
qed

lemma unitsOf_snoc: "unitsOf (obs @ [(w, jobStatus, b)]) = unitsOf obs @ [b]"
  by (simp add: unitsOf_def)

lemma feed_alertInvariant:
  assumes db: "db (database s) = Some t" and a: "a \<noteq> []" and T: "1 \<le> alertThresholdBlocks cfg"
    and init: "alertInvariant cfg a [] s"
  shows "(\<forall>(w, jobStatus, b) \<in> set obs. status_address jobStatus = a \<and> getJob_fault w a b = None \<and>
            upsertJob_fault w a b = NoFault \<and> 0 < b) \<Longrightarrow>
         sorted_wrt (<) (unitsOf obs) \<Longrightarrow>
         alertInvariant cfg a (unitsOf obs) (feed cfg obs s)"
proof (induction obs rule: rev_induct)
  case Nil
  then show ?case using init by (simp add: feed_def unitsOf_def)
next
  case (snoc x obs)
  obtain w jobStatus b where x: "x = (w, jobStatus, b)" by (cases x)
  have ok: "status_address jobStatus = a" "getJob_fault w a b = None" "upsertJob_fault w a b = NoFault" "0 < b"
    using snoc.prems(1) by (auto simp: x)
  have srt: "sorted_wrt (<) (unitsOf obs)" and later: "\<forall>u \<in> set (unitsOf obs). u < b"
    using snoc.prems(2) by (auto simp: x unitsOf_snoc sorted_wrt_append)
  have ih: "alertInvariant cfg a (unitsOf obs) (feed cfg obs s)"
    using snoc.IH snoc.prems(1) srt by auto
  obtain t' where t': "db (database (feed cfg obs s)) = Some t'"
    using feed_db [OF db] by blast
  show ?case
    unfolding x feed_snoc unitsOf_snoc
    by (rule alertInvariant_step [OF t' a T ok(1) ok(2) ok(3) ok(4) later ih])
qed

lemma reaching_threshold_is_due:
  assumes db: "db (database s) = Some t" and a: "a \<noteq> []" and T: "1 \<le> alertThresholdBlocks cfg"
    and js: "status_address jobStatus = a"
    and nf: "getJob_fault w a b = None" "upsertJob_fault w a b = NoFault"
    and pos: "0 < b" and later: "\<forall>u \<in> set units. u < b"
    and inv: "alertInvariant cfg a units s"
    and reach: "consecutiveWorkableBlocks (tracked a 0 (processJobStatus cfg w jobStatus b s)) = alertThresholdBlocks cfg"
  shows "alertDue cfg jobStatus b (tracked a 0 s)"
proof -
  let ?T = "alertThresholdBlocks cfg"
  let ?j = "tracked a 0 s"
  have b0: "b \<noteq> 0" using pos by simp
  note step = processJobStatus_alert_step [OF db a js nf b0, where cfg = cfg]
  have c: "consecutiveWorkableBlocks (tracked a b s) = consecutiveWorkableBlocks ?j"
    and wk: "isCurrentlyWorkable (tracked a b s) = isCurrentlyWorkable ?j"
    by (rule tracked_block_irrelevant)+
  have c': "?T = (if eligibleObservation jobStatus then (if isCurrentlyWorkable ?j then consecutiveWorkableBlocks ?j + 1 else 1) else 0)"
    using step(4) [of 0] c wk reach by simp
  have el: "eligibleObservation jobStatus" using c' T by (auto split: if_splits)
  have cnt: "?T = (if isCurrentlyWorkable ?j then consecutiveWorkableBlocks ?j + 1 else 1)"
    using c' el by simp
  have c0: "0 \<le> consecutiveWorkableBlocks ?j"
    and rest: "(case lastAlertBlock ?j of
           None \<Rightarrow> alertsFor a s = []
         | Some l \<Rightarrow>
             alertsFor a s \<noteq> [] \<and> last (alertsFor a s) = l \<and> (\<forall>u \<in> set (alertsFor a s). u \<le> l) \<and> l \<le> lastCheckedBlock ?j \<and>
             lastCheckedBlock ?j \<in> set units \<and>
             ((?T \<le> consecutiveWorkableBlocks ?j \<and> isCurrentlyWorkable ?j) \<or>
              l + consecutiveWorkableBlocks ?j < lastCheckedBlock ?j))"
    using inv by (simp_all add: alertInvariant_def Let_def)
  have "case lastAlertBlock ?j of None \<Rightarrow> True | Some l \<Rightarrow> l = 0 \<or> ?T \<le> b - l"
  proof (cases "lastAlertBlock ?j")
    case None
    then show ?thesis by simp
  next
    case (Some l)
    have r: "l \<le> lastCheckedBlock ?j" "lastCheckedBlock ?j \<in> set units"
        "(?T \<le> consecutiveWorkableBlocks ?j \<and> isCurrentlyWorkable ?j) \<or>
              l + consecutiveWorkableBlocks ?j < lastCheckedBlock ?j"
      using rest Some by simp_all
    have lt: "lastCheckedBlock ?j < b" using r(2) later by blast
    have "?T \<le> b - l" using r(1,3) lt cnt c0 by (auto split: if_splits)
    then show ?thesis using Some by simp
  qed
  then show ?thesis using el cnt by (simp add: alertDue_def)
qed

lemma four_workable_blocks_alert_twice: "alertsFor autoLineJob (feed exampleConfig fourWorkableBlocks freshService) = [2, 4]"
  by (simp add: feed_def fourWorkableBlocks_def workableAt_def quietWorld_def freshService_def
      emptyDatabase_def exampleConfig_def autoLineJob_def processJobStatus_def getJob_def
      upsertJob_def save_def upsertParams_def updateJobInfo_def sendAlert_def emit_def alertsFor_def
      truthyStr_def truthyNum_def orUndefinedNum_def orUndefinedStr_def Let_def)

lemma getJobName_known: "getJobName autoLineJob = ''AutoLineJob''"
  by (simp add: getJobName_def KNOWN_JOBS_def autoLineJob_def toLowerCase_def toLowerCaseChar_def)

lemma getJobName_unknown: "getJobName ''0x1234567890abcdef'' = ''Job 0x123456...''"
  by (simp add: getJobName_def KNOWN_JOBS_def autoLineJob_def toLowerCase_def toLowerCaseChar_def)

text \<open>
  Claim C1. One entity with a non-empty address is fed a finite sequence of check results
  through \<open>processJobStatus\<close>, on an initialised store whose reads and writes succeed, starting
  from a job that is not tracked yet or tracked with counter 0 and not workable. After each
  observation the stored \<open>consecutiveWorkableBlocks\<close> is the length of the trailing run of
  observations that were workable without error; in one step it becomes 1 when the job was
  not workable and is now, it grows by 1 when it was workable and still is, and it becomes 0
  on an observation that is not workable or carries an error.
\<close>

theorem consecutive_counter_is_trailing_run:
  assumes db: "db (database s) = Some t" and a: "a \<noteq> []"
    and fresh: "consecutiveWorkableBlocks (tracked a 0 s) = 0" "\<not> isCurrentlyWorkable (tracked a 0 s)"
    and obs: "\<forall>(w, jobStatus, b) \<in> set obs. status_address jobStatus = a \<and>
               getJob_fault w a b = None \<and> upsertJob_fault w a b = NoFault"
    and n: "n < length obs" and nth: "obs ! n = (w, jobStatus, b)"
  shows "\<exists>j. getJob None a (database (feed cfg (take (Suc n) obs) s)) = Inr (Some j) \<and>
           consecutiveWorkableBlocks j = trailingRun (take (Suc n) obs) \<and>
           consecutiveWorkableBlocks j =
             (if eligibleObservation jobStatus
              then (if isCurrentlyWorkable (tracked a b (feed cfg (take n obs) s))
                    then consecutiveWorkableBlocks (tracked a b (feed cfg (take n obs) s)) + 1
                    else 1)
              else 0)"
proof -
  let ?before = "feed cfg (take n obs) s"
  let ?after = "feed cfg (take (Suc n) obs) s"
  have tk: "take (Suc n) obs = take n obs @ [(w, jobStatus, b)]"
    using n nth by (simp add: take_Suc_conv_app_nth)
  have mem: "(w, jobStatus, b) \<in> set obs" using n nth by (metis nth_mem)
  have ok: "status_address jobStatus = a" "getJob_fault w a b = None" "upsertJob_fault w a b = NoFault"
    using obs mem by auto
  have obs': "\<forall>(w, jobStatus, b) \<in> set (take (Suc n) obs). status_address jobStatus = a \<and>
               getJob_fault w a b = None \<and> upsertJob_fault w a b = NoFault"
    using obs by (meson in_set_takeD)
  obtain t' where t': "db (database ?before) = Some t'"
    using feed_db [OF db] by blast
  have step: "?after = processJobStatus cfg w jobStatus b ?before"
    unfolding tk by (rule feed_snoc)
  have g: "getJob None a (database ?after) =
        Inr (Some (asStored (fst (updateJobInfo cfg w jobStatus b (tracked a b ?before) ?before))))"
    using processJobStatus_tracked [of ?before t' jobStatus w b cfg] t' a
    unfolding step ok(1) using ok(2,3) by blast
  let ?j = "asStored (fst (updateJobInfo cfg w jobStatus b (tracked a b ?before) ?before))"
  have run: "consecutiveWorkableBlocks (tracked a b ?after) = trailingRun (take (Suc n) obs)"
    using feed_counter [OF db a fresh obs', of b cfg] by simp
  have "tracked a b ?after = ?j" using g by (rule tracked_getJob)
  then have c1: "consecutiveWorkableBlocks ?j = trailingRun (take (Suc n) obs)" using run by simp
  have c2: "consecutiveWorkableBlocks ?j =
             (if eligibleObservation jobStatus
              then (if isCurrentlyWorkable (tracked a b ?before)
                    then consecutiveWorkableBlocks (tracked a b ?before) + 1
                    else 1)
              else 0)"
    by (simp only: asStored_counter updateJobInfo_counter)
  show ?thesis using g c1 c2 by blast
qed

lemmas example_defs = fourWorkableBlocks_def brokenRun_def workableAt_def failingAt_def quietWorld_def
  freshService_def emptyDatabase_def exampleConfig_def autoLineJob_def

lemmas model_defs = feed_def processJobStatus_def getJob_def
      upsertJob_def save_def upsertParams_def updateJobInfo_def sendAlert_def emit_def alertsFor_def
      truthyStr_def truthyNum_def orUndefinedNum_def orUndefinedStr_def Let_def tracked_def
      eligibleObservation_def trailingRun_def unitsOf_def

theorem consecutive_counter_is_trailing_run_witness:
  "\<exists>j. getJob None autoLineJob (database (feed exampleConfig (take 2 brokenRun) freshService)) = Inr (Some j) \<and>
       consecutiveWorkableBlocks j = 2 \<and> trailingRun (take 2 brokenRun) = 2"
  using consecutive_counter_is_trailing_run [of freshService Map.empty autoLineJob brokenRun 1
      quietWorld "workableAt 2" 2 exampleConfig]
  by (simp add: example_defs model_defs)

text \<open>
  Claim C10, as amended. On an initialised store whose write succeeds, \<open>getJob(j.address)\<close>
  after \<open>upsertJob(j)\<close> returns \<open>j\<close> on the persisted fields, provided the address is not the
  empty string; a name that is the empty string, and a \<open>lastWorkedBlock\<close> or \<open>lastAlertBlock\<close>
  that is 0, are read back as undefined, and \<open>description\<close> is not stored at all.
\<close>

theorem upsertJob_getJob_roundtrip:
  assumes "db D = Some t" and "address j \<noteq> []"
  shows "fst (upsertJob NoFault j D) = Inr () \<and>
         getJob None (address j) (snd (upsertJob NoFault j D)) =
           Inr (Some \<lparr> address = address j,
                       name = (if name j = Some [] then None else name j),
                       description = None,
                       lastWorkedBlock = (if lastWorkedBlock j = Some 0 then None else lastWorkedBlock j),
                       consecutiveWorkableBlocks = consecutiveWorkableBlocks j,
                       isCurrentlyWorkable = isCurrentlyWorkable j,
                       lastCheckedBlock = lastCheckedBlock j,
                       alertsSent = alertsSent j,
                       lastAlertBlock = (if lastAlertBlock j = Some 0 then None else lastAlertBlock j) \<rparr>)"
  using assms
  by (auto simp: upsertJob_def getJob_def save_def upsertParams_def orUndefinedNum_def
      orUndefinedStr_def truthyNum_def truthyStr_def split: option.splits)

theorem upsertJob_getJob_roundtrip_witness:
  "db emptyDatabase = Some Map.empty \<and> address mockJob \<noteq> [] \<and>
   getJob None (address mockJob) (snd (upsertJob NoFault mockJob emptyDatabase)) = Inr (Some mockJob)"
  using upsertJob_getJob_roundtrip [of emptyDatabase Map.empty mockJob]
  by (simp add: mockJob_def emptyDatabase_def)

text \<open>
  The round trip as claim C10 states it, for every \<open>JobInfo\<close>, fails for the job whose address
  is the empty string: \<open>getJob\<close> tests \<open>result.address\<close> for truthiness and returns null.
\<close>

theorem upsertJob_getJob_empty_address:
  "\<not> (\<forall>j D t. db D = Some t \<longrightarrow> name j \<noteq> Some [] \<longrightarrow> lastWorkedBlock j \<noteq> Some 0 \<longrightarrow>
        lastAlertBlock j \<noteq> Some 0 \<longrightarrow>
      (\<exists>r. getJob None (address j) (snd (upsertJob NoFault j D)) = Inr (Some r) \<and>
           address r = address j \<and> name r = name j \<and> lastWorkedBlock r = lastWorkedBlock j \<and>
           consecutiveWorkableBlocks r = consecutiveWorkableBlocks j \<and>
           isCurrentlyWorkable r = isCurrentlyWorkable j \<and> lastCheckedBlock r = lastCheckedBlock j \<and>
           alertsSent r = alertsSent j \<and> lastAlertBlock r = lastAlertBlock j))"
proof
  assume claim: "\<forall>j D t. db D = Some t \<longrightarrow> name j \<noteq> Some [] \<longrightarrow> lastWorkedBlock j \<noteq> Some 0 \<longrightarrow>
        lastAlertBlock j \<noteq> Some 0 \<longrightarrow>
      (\<exists>r. getJob None (address j) (snd (upsertJob NoFault j D)) = Inr (Some r) \<and>
           address r = address j \<and> name r = name j \<and> lastWorkedBlock r = lastWorkedBlock j \<and>
           consecutiveWorkableBlocks r = consecutiveWorkableBlocks j \<and>
           isCurrentlyWorkable r = isCurrentlyWorkable j \<and> lastCheckedBlock r = lastCheckedBlock j \<and>
           alertsSent r = alertsSent j \<and> lastAlertBlock r = lastAlertBlock j)"
  have "getJob None (address (mockJob\<lparr>address := []\<rparr>))
          (snd (upsertJob NoFault (mockJob\<lparr>address := []\<rparr>) emptyDatabase)) = Inr None"
    by (simp add: getJob_def upsertJob_def save_def emptyDatabase_def)
  moreover have "\<exists>r. getJob None (address (mockJob\<lparr>address := []\<rparr>))
          (snd (upsertJob NoFault (mockJob\<lparr>address := []\<rparr>) emptyDatabase)) = Inr (Some r)"
    using claim [rule_format, of emptyDatabase Map.empty "mockJob\<lparr>address := []\<rparr>"]
    by (auto simp: emptyDatabase_def mockJob_def)
  ultimately show False by simp
qed

text \<open>
  Claim C2. For a job with a non-empty address on an initialised store, a threshold of at
  least 1 and a unit \<open>U\<close> other than 0 processed without a store fault: an alert is handed to
  the sink at \<open>U\<close> exactly when the updated counter has reached the threshold and the job
  read from the store either has no \<open>lastAlertBlock\<close> or has one at least a threshold before
  \<open>U\<close>; firing adds 1 to \<open>alertsSent\<close> and sets \<open>lastAlertBlock\<close> to \<open>U\<close>, not firing leaves both
  alone. Over any run of observations at increasing positive units from a state with no
  alert yet, any two alerts of the job are at least a threshold apart, and the observation
  that brings the counter to exactly the threshold fires one alert at its unit.
\<close>

theorem alert_fires_iff_threshold_and_window:
  assumes db: "db (database s) = Some t" and a: "a \<noteq> []" and T: "1 \<le> alertThresholdBlocks cfg"
  shows "(\<forall>w jobStatus U.
            status_address jobStatus = a \<and> getJob_fault w a U = None \<and>
            upsertJob_fault w a U = NoFault \<and> U \<noteq> 0 \<longrightarrow>
            (let before = tracked a U s;
                 s' = processJobStatus cfg w jobStatus U s;
                 after = tracked a U s';
                 fires = (alertsFor a s' = alertsFor a s @ [U])
             in (fires \<longleftrightarrow>
                   alertThresholdBlocks cfg \<le> consecutiveWorkableBlocks after \<and>
                   (case lastAlertBlock before of
                      None \<Rightarrow> True
                    | Some l \<Rightarrow> alertThresholdBlocks cfg \<le> U - l)) \<and>
                (fires \<longrightarrow> alertsSent after = alertsSent before + 1 \<and> lastAlertBlock after = Some U) \<and>
                (\<not> fires \<longrightarrow> alertsFor a s' = alertsFor a s \<and> alertsSent after = alertsSent before \<and>
                              lastAlertBlock after = lastAlertBlock before))) \<and>
         (\<forall>obs.
            (\<forall>(w, jobStatus, U) \<in> set obs.
                status_address jobStatus = a \<and> getJob_fault w a U = None \<and>
                upsertJob_fault w a U = NoFault \<and> 0 < U) \<and>
            sorted_wrt (<) (unitsOf obs) \<and>
            lastAlertBlock (tracked a 0 s) = None \<and> alertsFor a s = [] \<and>
            0 \<le> consecutiveWorkableBlocks (tracked a 0 s) \<longrightarrow>
            sorted_wrt (\<lambda>u v. alertThresholdBlocks cfg \<le> v - u) (alertsFor a (feed cfg obs s)) \<and>
            (\<forall>n < length obs.
                consecutiveWorkableBlocks (tracked a 0 (feed cfg (take (Suc n) obs) s)) =
                  alertThresholdBlocks cfg \<longrightarrow>
                alertsFor a (feed cfg (take (Suc n) obs) s) =
                  alertsFor a (feed cfg (take n obs) s) @ [unitsOf obs ! n]))"
proof (intro conjI allI impI)
  fix w :: World and jobStatus :: JobStatus and U :: int
  assume h: "status_address jobStatus = a \<and> getJob_fault w a U = None \<and>
            upsertJob_fault w a U = NoFault \<and> U \<noteq> 0"
  have h1: "status_address jobStatus = a" and h2: "getJob_fault w a U = None"
    and h3: "upsertJob_fault w a U = NoFault" and h4: "U \<noteq> 0"
    using h by simp_all
  note step = processJobStatus_alert_step [OF db a h1 h2 h3 h4, where cfg = cfg]
  have s1: "alertsFor a (processJobStatus cfg w jobStatus U s) =
           alertsFor a s @ (if alertDue cfg jobStatus U (tracked a U s) then [U] else [])"
    by (rule step(1))
  have s2: "lastAlertBlock (tracked a U (processJobStatus cfg w jobStatus U s)) =
           (if alertDue cfg jobStatus U (tracked a U s) then Some U else lastAlertBlock (tracked a U s))"
    by (rule step(2))
  have s3: "alertsSent (tracked a U (processJobStatus cfg w jobStatus U s)) =
           (if alertDue cfg jobStatus U (tracked a U s) then alertsSent (tracked a U s) + 1
            else alertsSent (tracked a U s))"
    by (rule step(3))
  have s4: "consecutiveWorkableBlocks (tracked a U (processJobStatus cfg w jobStatus U s)) =
           (if eligibleObservation jobStatus
            then (if isCurrentlyWorkable (tracked a U s) then consecutiveWorkableBlocks (tracked a U s) + 1 else 1)
            else 0)"
    by (rule step(4))
  have nz: "lastAlertBlock (tracked a U s) \<noteq> Some 0" by (rule tracked_lastAlertBlock_nonzero)
  have due: "alertDue cfg jobStatus U (tracked a U s) \<longleftrightarrow>
      alertThresholdBlocks cfg \<le> consecutiveWorkableBlocks (tracked a U (processJobStatus cfg w jobStatus U s)) \<and>
      (case lastAlertBlock (tracked a U s) of None \<Rightarrow> True | Some l \<Rightarrow> alertThresholdBlocks cfg \<le> U - l)"
    unfolding s4 alertDue_def using T nz
    by (cases "lastAlertBlock (tracked a U s)") auto
  have fires: "(alertsFor a (processJobStatus cfg w jobStatus U s) = alertsFor a s @ [U]) \<longleftrightarrow>
      alertDue cfg jobStatus U (tracked a U s)"
    unfolding s1 by simp
  show "let before = tracked a U s;
            s' = processJobStatus cfg w jobStatus U s;
            after = tracked a U s';
            fires = (alertsFor a s' = alertsFor a s @ [U])
        in (fires \<longleftrightarrow>
              alertThresholdBlocks cfg \<le> consecutiveWorkableBlocks after \<and>
              (case lastAlertBlock before of
                 None \<Rightarrow> True
               | Some l \<Rightarrow> alertThresholdBlocks cfg \<le> U - l)) \<and>
           (fires \<longrightarrow> alertsSent after = alertsSent before + 1 \<and> lastAlertBlock after = Some U) \<and>
           (\<not> fires \<longrightarrow> alertsFor a s' = alertsFor a s \<and> alertsSent after = alertsSent before \<and>
                         lastAlertBlock after = lastAlertBlock before)"
    unfolding Let_def fires
    using due s1 s2 s3 by simp
next
  fix obs
  assume h: "(\<forall>(w, jobStatus, U) \<in> set obs.
                status_address jobStatus = a \<and> getJob_fault w a U = None \<and>
                upsertJob_fault w a U = NoFault \<and> 0 < U) \<and>
            sorted_wrt (<) (unitsOf obs) \<and>
            lastAlertBlock (tracked a 0 s) = None \<and> alertsFor a s = [] \<and>
            0 \<le> consecutiveWorkableBlocks (tracked a 0 s)"
  have hobs: "\<forall>(w, jobStatus, U) \<in> set obs.
                status_address jobStatus = a \<and> getJob_fault w a U = None \<and>
                upsertJob_fault w a U = NoFault \<and> 0 < U"
    using h by (elim conjE)
  have hsrt: "sorted_wrt (<) (unitsOf obs)" using h by (elim conjE)
  have hinit: "lastAlertBlock (tracked a 0 s) = None \<and> alertsFor a s = [] \<and>
    0 \<le> consecutiveWorkableBlocks (tracked a 0 s)"
    using h by (elim conjE, intro conjI)
  have init: "alertInvariant cfg a [] s"
    using hinit by (simp add: alertInvariant_def Let_def)
  have "alertInvariant cfg a (unitsOf obs) (feed cfg obs s)"
    by (rule feed_alertInvariant [OF db a T init hobs hsrt])
  then show "sorted_wrt (\<lambda>u v. alertThresholdBlocks cfg \<le> v - u) (alertsFor a (feed cfg obs s))"
    by (simp add: alertInvariant_def Let_def)
next
  fix obs n
  assume h: "(\<forall>(w, jobStatus, U) \<in> set obs.
                status_address jobStatus = a \<and> getJob_fault w a U = None \<and>
                upsertJob_fault w a U = NoFault \<and> 0 < U) \<and>
            sorted_wrt (<) (unitsOf obs) \<and>
            lastAlertBlock (tracked a 0 s) = None \<and> alertsFor a s = [] \<and>
            0 \<le> consecutiveWorkableBlocks (tracked a 0 s)"
    and n: "n < length obs"
    and reach: "consecutiveWorkableBlocks (tracked a 0 (feed cfg (take (Suc n) obs) s)) =
                  alertThresholdBlocks cfg"
  have hobs: "\<forall>(w, jobStatus, U) \<in> set obs.
                status_address jobStatus = a \<and> getJob_fault w a U = None \<and>
                upsertJob_fault w a U = NoFault \<and> 0 < U"
    using h by (elim conjE)
  have hsrt: "sorted_wrt (<) (unitsOf obs)" using h by (elim conjE)
  have hinit: "lastAlertBlock (tracked a 0 s) = None \<and> alertsFor a s = [] \<and>
    0 \<le> consecutiveWorkableBlocks (tracked a 0 s)"
    using h by (elim conjE, intro conjI)
  have init: "alertInvariant cfg a [] s"
    using hinit by (simp add: alertInvariant_def Let_def)
  obtain w jobStatus U where nth: "obs ! n = (w, jobStatus, U)" by (cases "obs ! n")
  have tk: "take (Suc n) obs = take n obs @ [(w, jobStatus, U)]"
    using n nth by (simp add: take_Suc_conv_app_nth)
  have un: "unitsOf obs ! n = U" using n nth by (simp add: unitsOf_def)
  have mem: "(w, jobStatus, U) \<in> set obs" using n nth by (metis nth_mem)
  have ok: "status_address jobStatus = a" "getJob_fault w a U = None" "upsertJob_fault w a U = NoFault" "0 < U"
    using hobs mem by auto
  have pre: "\<forall>(w, jobStatus, U) \<in> set (take n obs).
                status_address jobStatus = a \<and> getJob_fault w a U = None \<and>
                upsertJob_fault w a U = NoFault \<and> 0 < U"
    using hobs by (meson in_set_takeD)
  have "unitsOf (take n obs) @ unitsOf (drop n obs) = unitsOf obs"
    unfolding unitsOf_def by (simp only: map_append [symmetric] append_take_drop_id)
  then have "sorted_wrt (<) (unitsOf (take n obs) @ unitsOf (drop n obs))"
    using hsrt by simp
  then have srt: "sorted_wrt (<) (unitsOf (take n obs))"
    and cross: "\<forall>u \<in> set (unitsOf (take n obs)). \<forall>v \<in> set (unitsOf (drop n obs)). u < v"
    by (simp_all add: sorted_wrt_append)
  have "U \<in> set (unitsOf (drop n obs))"
    using n nth by (simp add: unitsOf_def Cons_nth_drop_Suc [symmetric])
  then have later: "\<forall>u \<in> set (unitsOf (take n obs)). u < U" using cross by blast
  have inv: "alertInvariant cfg a (unitsOf (take n obs)) (feed cfg (take n obs) s)"
    by (rule feed_alertInvariant [OF db a T init pre srt])
  obtain t' where t': "db (database (feed cfg (take n obs) s)) = Some t'"
    using feed_db [OF db] by blast
  have step: "feed cfg (take (Suc n) obs) s = processJobStatus cfg w jobStatus U (feed cfg (take n obs) s)"
    unfolding tk by (rule feed_snoc)
  have due: "alertDue cfg jobStatus U (tracked a 0 (feed cfg (take n obs) s))"
    using reaching_threshold_is_due [OF t' a T ok(1) ok(2) ok(3) ok(4) later inv] reach
    unfolding step by blast
  have U0: "U \<noteq> 0" using ok(4) by simp
  have "alertsFor a (processJobStatus cfg w jobStatus U (feed cfg (take n obs) s)) =
          alertsFor a (feed cfg (take n obs) s) @
            (if alertDue cfg jobStatus U (tracked a U (feed cfg (take n obs) s)) then [U] else [])"
    by (rule processJobStatus_alert_step(1) [OF t' a ok(1) ok(2) ok(3) U0])
  moreover have "alertDue cfg jobStatus U (tracked a U (feed cfg (take n obs) s))"
    using due alertDue_irrelevant by blast
  ultimately show "alertsFor a (feed cfg (take (Suc n) obs) s) =
                  alertsFor a (feed cfg (take n obs) s) @ [unitsOf obs ! n]"
    unfolding step un by simp
qed

theorem alert_fires_iff_threshold_and_window_witness:
  "alertsFor autoLineJob (processJobStatus exampleConfig quietWorld (workableAt 2) 2 workableOnceService) =
     alertsFor autoLineJob workableOnceService @ [2] \<and>
   alertsSent (tracked autoLineJob 2 (processJobStatus exampleConfig quietWorld (workableAt 2) 2 workableOnceService)) = 1 \<and>
   lastAlertBlock (tracked autoLineJob 2 (processJobStatus exampleConfig quietWorld (workableAt 2) 2 workableOnceService)) = Some 2 \<and>
   alertsFor autoLineJob (feed exampleConfig threeWorkableBlocks workableOnceService) = [2, 4] \<and>
   sorted_wrt (\<lambda>u v. alertThresholdBlocks exampleConfig \<le> v - u)
     (alertsFor autoLineJob (feed exampleConfig threeWorkableBlocks workableOnceService))"
  using alert_fires_iff_threshold_and_window [of workableOnceService workableOnceTable autoLineJob exampleConfig,
          THEN conjunct1, rule_format, where w = quietWorld and jobStatus = "workableAt 2" and U = 2]
        alert_fires_iff_threshold_and_window [of workableOnceService workableOnceTable autoLineJob exampleConfig,
          THEN conjunct2, rule_format, where obs = threeWorkableBlocks]
  by (simp add: workableOnceService_def workableOnceTable_def threeWorkableBlocks_def example_defs model_defs)

section \<open>The retry wrapper\<close>

lemma retry_exhausted:
  "retries \<le> attempt \<Longrightarrow>
   processBlockWithRetry_from work b retries attempt s = (Inl (Error (exhaustedMessage b retries)), s)"
  by (subst processBlockWithRetry_from.simps) (simp add: exhaustedMessage_def)

lemma retry_success:
  "attempt < retries \<Longrightarrow> work attempt (emit (Attempt b attempt) s) = (Inr u, s') \<Longrightarrow>
   processBlockWithRetry_from work b retries attempt s = (Inr (), s')"
  by (subst processBlockWithRetry_from.simps) simp

lemma retry_fatal:
  "attempt < retries \<Longrightarrow> work attempt (emit (Attempt b attempt) s) = (Inl err, s') \<Longrightarrow>
   \<not> isRateLimited (messageOr [] err) \<Longrightarrow>
   processBlockWithRetry_from work b retries attempt s = (Inl err, s')"
  by (subst processBlockWithRetry_from.simps) simp

lemma retry_retryable:
  "attempt < retries \<Longrightarrow> work attempt (emit (Attempt b attempt) s) = (Inl err, s') \<Longrightarrow>
   isRateLimited (messageOr [] err) \<Longrightarrow>
   processBlockWithRetry_from work b retries attempt s =
     processBlockWithRetry_from work b retries (Suc attempt) (emit (Backoff (3 ^ (attempt + 4) * 1000)) s')"
  by (subst processBlockWithRetry_from.simps) simp

lemma retryEvents_emit:
  "retryEvents (emit ev s) = retryEvents s @ (if isRetryEvent ev then [ev] else [])"
  by (simp add: retryEvents_def emit_def)

lemma retrySchedule_step:
  "attempt < retries \<Longrightarrow>
   retrySchedule b attempt retries =
     Attempt b attempt # Backoff (3 ^ (attempt + 4) * 1000) # retrySchedule b (Suc attempt) retries"
  by (simp add: retrySchedule_def upt_conv_Cons)

lemma retry_events:
  assumes quiet: "\<And>k s. retryEvents (snd (work k s)) = retryEvents s"
  shows "\<exists>m. retryEvents (snd (processBlockWithRetry_from work b retries attempt s)) =
              retryEvents s @ take m (retrySchedule b attempt retries)"
proof (induction "retries - attempt" arbitrary: attempt s)
  case 0
  then have "retries \<le> attempt" by simp
  then show ?case using retry_exhausted [of retries attempt work b s] by (intro exI [of _ 0]) simp
next
  case (Suc n)
  then have lt: "attempt < retries" by simp
  obtain r s' where w: "work attempt (emit (Attempt b attempt) s) = (r, s')"
    by (cases "work attempt (emit (Attempt b attempt) s)")
  have ev: "retryEvents s' = retryEvents s @ [Attempt b attempt]"
    using quiet [of attempt "emit (Attempt b attempt) s"] w
    by (simp add: retryEvents_emit isRetryEvent_def)
  show ?case
  proof (cases r)
    case (Inr u)
    then have "processBlockWithRetry_from work b retries attempt s = (Inr (), s')"
      using retry_success [OF lt] w by simp
    then show ?thesis using ev lt by (intro exI [of _ 1]) (simp add: retrySchedule_step)
  next
    case (Inl err)
    show ?thesis
    proof (cases "isRateLimited (messageOr [] err)")
      case False
      then have "processBlockWithRetry_from work b retries attempt s = (Inl err, s')"
        using retry_fatal [OF lt] w Inl by simp
      then show ?thesis using ev lt by (intro exI [of _ 1]) (simp add: retrySchedule_step)
    next
      case True
      let ?s'' = "emit (Backoff (3 ^ (attempt + 4) * 1000)) s'"
      have eq: "processBlockWithRetry_from work b retries attempt s =
                processBlockWithRetry_from work b retries (Suc attempt) ?s''"
        using retry_retryable [OF lt] w Inl True by simp
      have "n = retries - Suc attempt" using Suc.hyps(2) by simp
      from Suc.hyps(1) [OF this, of ?s''] obtain m where
        m: "retryEvents (snd (processBlockWithRetry_from work b retries (Suc attempt) ?s'')) =
            retryEvents ?s'' @ take m (retrySchedule b (Suc attempt) retries)"
        by blast
      have "retryEvents ?s'' = retryEvents s @ [Attempt b attempt, Backoff (3 ^ (attempt + 4) * 1000)]"
        using ev by (simp add: retryEvents_emit isRetryEvent_def)
      then show ?thesis
        unfolding eq m using lt
        by (intro exI [of _ "Suc (Suc m)"]) (simp add: retrySchedule_step)
    qed
  qed
qed

lemma retry_all_rate_limited:
  assumes limited: "\<And>k s. \<exists>err s'. work k s = (Inl err, s') \<and> isRateLimited (messageOr [] err)"
    and quiet: "\<And>k s. retryEvents (snd (work k s)) = retryEvents s"
  shows "fst (processBlockWithRetry_from work b retries attempt s) = Inl (Error (exhaustedMessage b retries)) \<and>
         retryEvents (snd (processBlockWithRetry_from work b retries attempt s)) =
           retryEvents s @ retrySchedule b attempt retries"
proof (induction "retries - attempt" arbitrary: attempt s)
  case 0
  then have "retries \<le> attempt" by simp
  then show ?case
    using retry_exhausted [of retries attempt work b s] by (simp add: retrySchedule_def)
next
  case (Suc n)
  then have lt: "attempt < retries" by simp
  obtain err s' where w: "work attempt (emit (Attempt b attempt) s) = (Inl err, s')"
    and rl: "isRateLimited (messageOr [] err)"
    using limited [of attempt "emit (Attempt b attempt) s"] by blast
  have ev: "retryEvents s' = retryEvents s @ [Attempt b attempt]"
    using quiet [of attempt "emit (Attempt b attempt) s"] w
    by (simp add: retryEvents_emit isRetryEvent_def)
  let ?s'' = "emit (Backoff (3 ^ (attempt + 4) * 1000)) s'"
  have eq: "processBlockWithRetry_from work b retries attempt s =
            processBlockWithRetry_from work b retries (Suc attempt) ?s''"
    by (rule retry_retryable [where work = work, OF lt w rl])
  have n: "n = retries - Suc attempt" using Suc.hyps(2) by simp
  have ev2: "retryEvents ?s'' = retryEvents s @ [Attempt b attempt, Backoff (3 ^ (attempt + 4) * 1000)]"
    using ev by (simp add: retryEvents_emit isRetryEvent_def)
  show ?case
    unfolding eq using Suc.hyps(1) [OF n, of ?s''] ev2 lt
    by (simp add: retrySchedule_step)
qed

lemma updateJobInfo_retryEvents:
  "retryEvents (snd (updateJobInfo cfg w jobStatus b j s)) = retryEvents s"
  by (simp add: updateJobInfo_def Let_def sendAlert_def retryEvents_emit isRetryEvent_def)

lemma processJobStatus_shape:
  "processJobStatus cfg w jobStatus b s = s \<or>
   (\<exists>j D. processJobStatus cfg w jobStatus b s = (snd (updateJobInfo cfg w jobStatus b j s))\<lparr>database := D\<rparr>)"
proof (cases "getJob (getJob_fault w (status_address jobStatus) b) (status_address jobStatus) (database s)")
  case (Inl err)
  then show ?thesis by (simp add: processJobStatus_def)
next
  case (Inr found)
  define j0 where "j0 = (case found of Some j \<Rightarrow> j
      | None \<Rightarrow> \<lparr> address = status_address jobStatus, name = Some (getJobName (status_address jobStatus)),
          description = None, lastWorkedBlock = None, consecutiveWorkableBlocks = 0,
          isCurrentlyWorkable = False, lastCheckedBlock = b, alertsSent = 0, lastAlertBlock = None \<rparr>)"
  obtain j1 s1 where u: "updateJobInfo cfg w jobStatus b j0 s = (j1, s1)"
    by (cases "updateJobInfo cfg w jobStatus b j0 s")
  obtain res D where up: "upsertJob (upsertJob_fault w (status_address jobStatus) b) j1 (database s1) = (res, D)"
    by (cases "upsertJob (upsertJob_fault w (status_address jobStatus) b) j1 (database s1)")
  have "processJobStatus cfg w jobStatus b s = s1\<lparr>database := D\<rparr>"
    using Inr u up by (simp add: processJobStatus_def j0_def)
  moreover have "s1 = snd (updateJobInfo cfg w jobStatus b j0 s)" using u by simp
  ultimately show ?thesis by blast
qed

lemma processJobStatus_retryEvents:
  "retryEvents (processJobStatus cfg w jobStatus b s) = retryEvents s"
proof -
  consider "processJobStatus cfg w jobStatus b s = s"
    | j D where "processJobStatus cfg w jobStatus b s = (snd (updateJobInfo cfg w jobStatus b j s))\<lparr>database := D\<rparr>"
    using processJobStatus_shape [of cfg w jobStatus b s] by blast
  then show ?thesis
  proof cases
    case 1
    then show ?thesis by simp
  next
    case 2
    have "retryEvents ((snd (updateJobInfo cfg w jobStatus b j s))\<lparr>database := D\<rparr>) =
          retryEvents (snd (updateJobInfo cfg w jobStatus b j s))"
      by (simp add: retryEvents_def)
    then show ?thesis using 2 updateJobInfo_retryEvents [of cfg w jobStatus b j s] by simp
  qed
qed

lemma foldl_processJobStatus_retryEvents:
  "retryEvents (foldl (\<lambda>s' jobStatus. processJobStatus cfg w jobStatus b s') s jobStatuses) = retryEvents s"
  by (induction jobStatuses arbitrary: s) (simp_all add: processJobStatus_retryEvents)

lemma processBlock_retryEvents:
  "retryEvents (snd (processBlock cfg w b attempt s)) = retryEvents s"
  by (simp add: processBlock_def foldl_processJobStatus_retryEvents split: sum.splits)

lemma isRateLimited_429: "isRateLimited ''429 Too Many Requests''"
  by (simp add: isRateLimited_def toLowerCase_def toLowerCaseChar_def)

lemma not_isRateLimited_reverted: "\<not> isRateLimited ''execution reverted''"
  by (simp add: isRateLimited_def toLowerCase_def toLowerCaseChar_def)

lemma rateLimitSignature_429: "rateLimitSignature ''429 Too Many Requests''"
  by (simp add: rateLimitSignature_def toLowerCase_def toLowerCaseChar_def)

lemma not_rateLimitSignature_reverted: "\<not> rateLimitSignature ''execution reverted''"
  by (simp add: rateLimitSignature_def toLowerCase_def toLowerCaseChar_def)

lemma showNumber_examples: "showNumber 7 = ''7''" "showNumber 3 = ''3''" "showNumber 1 = ''1''"
  by (simp_all add: showNumber_def)

text \<open>
  Claim C4. The retry wrapper, from any attempt on: an attempt that succeeds ends it; an
  attempt that fails with an error that is not of rate-limit signature makes it raise that
  error at once, in the state the attempt left; an attempt that fails with a rate-limit
  error is followed by a delay of \<open>3^(attempt+4) * 1000\<close> ms and the next attempt; once
  \<open>retries\<close> attempts are used up it raises an error whose message names the block. Whatever
  the unit of work does, the wrapper makes the attempts 0, 1, ... in order, never more than
  \<open>retries\<close> of them (3 in the monitoring loop), each failed one followed by its delay; when
  every attempt is rate limited it makes all of them and raises the error naming the block.
\<close>

theorem processBlockWithRetry_retries_and_raises:
  "(attempt < retries \<and> work attempt (emit (Attempt b attempt) s) = (Inr u, s') \<longrightarrow>
      processBlockWithRetry_from work b retries attempt s = (Inr (), s')) \<and>
   (attempt < retries \<and> work attempt (emit (Attempt b attempt) s) = (Inl err, s') \<and>
    \<not> isRateLimited (messageOr [] err) \<longrightarrow>
      processBlockWithRetry_from work b retries attempt s = (Inl err, s')) \<and>
   (attempt < retries \<and> work attempt (emit (Attempt b attempt) s) = (Inl err, s') \<and>
    isRateLimited (messageOr [] err) \<longrightarrow>
      processBlockWithRetry_from work b retries attempt s =
        processBlockWithRetry_from work b retries (Suc attempt)
          (emit (Backoff (3 ^ (attempt + 4) * 1000)) s')) \<and>
   (retries \<le> attempt \<longrightarrow>
      processBlockWithRetry_from work b retries attempt s =
        (Inl (Error (''Failed to process block '' @ showNumber b @ '' after '' @
                     showNumber (int retries) @ '' attempts due to rate limiting'')), s)) \<and>
   ((\<forall>k s. retryEvents (snd (work k s)) = retryEvents s) \<longrightarrow>
      (\<exists>m. retryEvents (snd (processBlockWithRetry work b retries s)) =
             retryEvents s @ take m (retrySchedule b 0 retries))) \<and>
   ((\<forall>k s. retryEvents (snd (work k s)) = retryEvents s) \<and>
    (\<forall>k s. \<exists>err s'. work k s = (Inl err, s') \<and> isRateLimited (messageOr [] err)) \<longrightarrow>
      fst (processBlockWithRetry work b retries s) =
        Inl (Error (''Failed to process block '' @ showNumber b @ '' after '' @
                    showNumber (int retries) @ '' attempts due to rate limiting'')) \<and>
      retryEvents (snd (processBlockWithRetry work b retries s)) =
        retryEvents s @ retrySchedule b 0 retries)"
proof (intro conjI impI)
  assume "attempt < retries \<and> work attempt (emit (Attempt b attempt) s) = (Inr u, s')"
  then show "processBlockWithRetry_from work b retries attempt s = (Inr (), s')"
    using retry_success [of attempt retries work b s u s'] by blast
next
  assume "attempt < retries \<and> work attempt (emit (Attempt b attempt) s) = (Inl err, s') \<and>
    \<not> isRateLimited (messageOr [] err)"
  then show "processBlockWithRetry_from work b retries attempt s = (Inl err, s')"
    using retry_fatal [of attempt retries work b s err s'] by blast
next
  assume "attempt < retries \<and> work attempt (emit (Attempt b attempt) s) = (Inl err, s') \<and>
    isRateLimited (messageOr [] err)"
  then show "processBlockWithRetry_from work b retries attempt s =
        processBlockWithRetry_from work b retries (Suc attempt)
          (emit (Backoff (3 ^ (attempt + 4) * 1000)) s')"
    using retry_retryable [of attempt retries work b s err s'] by blast
next
  assume "retries \<le> attempt"
  then show "processBlockWithRetry_from work b retries attempt s =
        (Inl (Error (''Failed to process block '' @ showNumber b @ '' after '' @
                     showNumber (int retries) @ '' attempts due to rate limiting'')), s)"
    using retry_exhausted [of retries attempt work b s] by (simp add: exhaustedMessage_def)
next
  assume "\<forall>k s. retryEvents (snd (work k s)) = retryEvents s"
  then show "\<exists>m. retryEvents (snd (processBlockWithRetry work b retries s)) =
             retryEvents s @ take m (retrySchedule b 0 retries)"
    unfolding processBlockWithRetry_def using retry_events [of work b retries 0 s] by blast
next
  assume h: "(\<forall>k s. retryEvents (snd (work k s)) = retryEvents s) \<and>
    (\<forall>k s. \<exists>err s'. work k s = (Inl err, s') \<and> isRateLimited (messageOr [] err))"
  have "fst (processBlockWithRetry_from work b retries 0 s) = Inl (Error (exhaustedMessage b retries)) \<and>
         retryEvents (snd (processBlockWithRetry_from work b retries 0 s)) =
           retryEvents s @ retrySchedule b 0 retries"
    using h by (intro retry_all_rate_limited) blast+
  then show "fst (processBlockWithRetry work b retries s) =
        Inl (Error (''Failed to process block '' @ showNumber b @ '' after '' @
                    showNumber (int retries) @ '' attempts due to rate limiting''))"
    and "retryEvents (snd (processBlockWithRetry work b retries s)) =
        retryEvents s @ retrySchedule b 0 retries"
    by (simp_all add: processBlockWithRetry_def exhaustedMessage_def)
qed

lemma retrySchedule_three:
  "retrySchedule b 0 3 = [Attempt b 0, Backoff 81000, Attempt b 1, Backoff 243000, Attempt b 2, Backoff 729000]"
  by (simp add: retrySchedule_def upt_conv_Cons)

theorem processBlockWithRetry_retries_and_raises_witness:
  "processBlockWithRetry_from alwaysReverting 7 3 0 freshService =
     (Inl (Error ''execution reverted''), emit (Attempt 7 0) freshService) \<and>
   fst (processBlockWithRetry alwaysRateLimited 7 3 freshService) =
     Inl (Error ''Failed to process block 7 after 3 attempts due to rate limiting'') \<and>
   retryEvents (snd (processBlockWithRetry alwaysRateLimited 7 3 freshService)) =
     [Attempt 7 0, Backoff 81000, Attempt 7 1, Backoff 243000, Attempt 7 2, Backoff 729000] \<and>
   (\<exists>m. retryEvents (snd (processBlockWithRetry (processBlock exampleConfig rateLimitedWorld 7) 7 3 freshService)) =
         take m [Attempt 7 0, Backoff 81000, Attempt 7 1, Backoff 243000, Attempt 7 2, Backoff 729000])"
proof -
  note main = processBlockWithRetry_retries_and_raises
  have fatal: "processBlockWithRetry_from alwaysReverting 7 3 0 freshService =
     (Inl (Error ''execution reverted''), emit (Attempt 7 0) freshService)"
    using main [where work = alwaysReverting and attempt = 0 and retries = 3 and b = 7
        and s = freshService and err = "Error ''execution reverted''" and s' = "emit (Attempt 7 0) freshService",
        THEN conjunct2, THEN conjunct1]
    by (simp add: alwaysReverting_def messageOr_def not_isRateLimited_reverted)
  have quiet: "\<forall>k s. retryEvents (snd (alwaysRateLimited k s)) = retryEvents s"
    by (simp add: alwaysRateLimited_def)
  have limited: "\<forall>k s. \<exists>err s'. alwaysRateLimited k s = (Inl err, s') \<and> isRateLimited (messageOr [] err)"
    by (simp add: alwaysRateLimited_def messageOr_def isRateLimited_429)
  have ev0: "retryEvents freshService = []" by (simp add: retryEvents_def freshService_def)
  have exhausted: "fst (processBlockWithRetry alwaysRateLimited 7 3 freshService) =
     Inl (Error ''Failed to process block 7 after 3 attempts due to rate limiting'') \<and>
     retryEvents (snd (processBlockWithRetry alwaysRateLimited 7 3 freshService)) =
     [Attempt 7 0, Backoff 81000, Attempt 7 1, Backoff 243000, Attempt 7 2, Backoff 729000]"
    using main [where work = alwaysRateLimited and retries = 3 and b = 7 and s = freshService,
        THEN conjunct2, THEN conjunct2, THEN conjunct2, THEN conjunct2, THEN conjunct2] quiet limited
    by (simp add: showNumber_examples retrySchedule_three ev0)
  have real: "\<exists>m. retryEvents (snd (processBlockWithRetry (processBlock exampleConfig rateLimitedWorld 7) 7 3 freshService)) =
         take m [Attempt 7 0, Backoff 81000, Attempt 7 1, Backoff 243000, Attempt 7 2, Backoff 729000]"
    using main [where work = "processBlock exampleConfig rateLimitedWorld 7" and retries = 3 and b = 7
        and s = freshService,
        THEN conjunct2, THEN conjunct2, THEN conjunct2, THEN conjunct2, THEN conjunct1]
      processBlock_retryEvents
    by (simp add: retrySchedule_three ev0)
  show ?thesis using fatal exhausted real by blast
qed

section \<open>Failed blocks and the window of a tick\<close>

lemma processBlock_fails: "processBlock cfg w b k s = (Inl err, s') \<Longrightarrow> s' = s"
  by (auto simp: processBlock_def split: sum.splits)

lemma retry_processBlock_fails:
  "processBlockWithRetry_from (processBlock cfg w b) b retries attempt s = (Inl err, s') \<Longrightarrow>
   \<exists>evs. s' = s\<lparr>trace := trace s @ evs\<rparr> \<and> (\<forall>ev \<in> set evs. isRetryEvent ev)"
proof (induction "retries - attempt" arbitrary: attempt s)
  case 0
  then have "retries \<le> attempt" by simp
  then have "s' = s" using retry_exhausted [of retries attempt "processBlock cfg w b" b s] "0.prems" by simp
  then show ?case by (intro exI [of _ "[]"]) simp
next
  case (Suc n)
  then have lt: "attempt < retries" by simp
  let ?s0 = "emit (Attempt b attempt) s"
  obtain r s1 where w: "processBlock cfg w b attempt ?s0 = (r, s1)"
    by (cases "processBlock cfg w b attempt ?s0")
  show ?case
  proof (cases r)
    case (Inr u)
    then have "processBlockWithRetry_from (processBlock cfg w b) b retries attempt s = (Inr (), s1)"
      using retry_success [OF lt, of "processBlock cfg w b" b s u s1] w by simp
    then show ?thesis using Suc.prems by simp
  next
    case (Inl e1)
    then have s1: "s1 = ?s0" using processBlock_fails w by blast
    show ?thesis
    proof (cases "isRateLimited (messageOr [] e1)")
      case False
      then have "processBlockWithRetry_from (processBlock cfg w b) b retries attempt s = (Inl e1, s1)"
        using retry_fatal [OF lt, of "processBlock cfg w b" b s e1 s1] w Inl by simp
      then have "s' = ?s0" using Suc.prems s1 by simp
      then show ?thesis
        by (intro exI [of _ "[Attempt b attempt]"]) (simp add: emit_def isRetryEvent_def)
    next
      case True
      let ?s2 = "emit (Backoff (3 ^ (attempt + 4) * 1000)) s1"
      have eq: "processBlockWithRetry_from (processBlock cfg w b) b retries attempt s =
                processBlockWithRetry_from (processBlock cfg w b) b retries (Suc attempt) ?s2"
        using retry_retryable [OF lt, of "processBlock cfg w b" b s e1 s1] w Inl True by simp
      have n: "n = retries - Suc attempt" using Suc.hyps(2) by simp
      have "processBlockWithRetry_from (processBlock cfg w b) b retries (Suc attempt) ?s2 = (Inl err, s')"
        using Suc.prems eq by simp
      from Suc.hyps(1) [OF n this] obtain evs where
        evs: "s' = ?s2\<lparr>trace := trace ?s2 @ evs\<rparr>" "\<forall>ev \<in> set evs. isRetryEvent ev"
        by blast
      have "s' = s\<lparr>trace := trace s @ (Attempt b attempt # Backoff (3 ^ (attempt + 4) * 1000) # evs)\<rparr>"
        using evs(1) s1 by (simp add: emit_def)
      moreover have "\<forall>ev \<in> set (Attempt b attempt # Backoff (3 ^ (attempt + 4) * 1000) # evs). isRetryEvent ev"
        using evs(2) by (simp add: isRetryEvent_def)
      ultimately show ?thesis by blast
    qed
  qed
qed

lemma processBlocks_cursor:
  "fst (processBlocks cfg w blockNum endBlock sp s) = (if blockNum \<le> endBlock then endBlock else sp)"
proof (induction "nat (endBlock + 1 - blockNum)" arbitrary: blockNum sp s)
  case 0
  then have "\<not> blockNum \<le> endBlock" by simp
  then show ?case by (subst processBlocks.simps) simp
next
  case (Suc n)
  then have le: "blockNum \<le> endBlock" by simp
  have n: "n = nat (endBlock + 1 - (blockNum + 1))" using Suc.hyps(2) by simp
  have ih: "\<And>sp s. fst (processBlocks cfg w (blockNum + 1) endBlock sp s) =
              (if blockNum + 1 \<le> endBlock then endBlock else sp)"
    using Suc.hyps(1) [OF n] by simp
  obtain r s1 where r: "processBlockWithRetry (processBlock cfg w blockNum) blockNum 3 s = (r, s1)"
    by (cases "processBlockWithRetry (processBlock cfg w blockNum) blockNum 3 s")
  show ?case
    using le r ih by (subst processBlocks.simps) (cases r; auto)
qed

lemma attemptedBlocks_emit:
  "attemptedBlocks (emit ev s) = attemptedBlocks s @ (case ev of Attempt b k \<Rightarrow> [b] | _ \<Rightarrow> [])"
  by (cases ev) (simp_all add: attemptedBlocks_def retryEvents_emit isRetryEvent_def)

lemma attemptedBlocks_quiet:
  "retryEvents s' = retryEvents s \<Longrightarrow> attemptedBlocks s' = attemptedBlocks s"
  by (simp add: attemptedBlocks_def)

lemma retry_attemptedBlocks:
  assumes quiet: "\<And>k s. retryEvents (snd (work k s)) = retryEvents s"
  shows "\<exists>n. (attempt < retries \<longrightarrow> 0 < n) \<and>
             attemptedBlocks (snd (processBlockWithRetry_from work b retries attempt s)) =
               attemptedBlocks s @ replicate n b"
proof (induction "retries - attempt" arbitrary: attempt s)
  case 0
  then have "retries \<le> attempt" by simp
  then show ?case
    using retry_exhausted [of retries attempt work b s] by (intro exI [of _ 0]) simp
next
  case (Suc n)
  then have lt: "attempt < retries" by simp
  obtain r s' where w: "work attempt (emit (Attempt b attempt) s) = (r, s')"
    by (cases "work attempt (emit (Attempt b attempt) s)")
  have "retryEvents s' = retryEvents (emit (Attempt b attempt) s)"
    using quiet [of attempt "emit (Attempt b attempt) s"] w by simp
  then have "attemptedBlocks s' = attemptedBlocks (emit (Attempt b attempt) s)"
    by (rule attemptedBlocks_quiet)
  then have ab: "attemptedBlocks s' = attemptedBlocks s @ [b]"
    by (simp add: attemptedBlocks_emit)
  show ?case
  proof (cases r)
    case (Inr u)
    then have "processBlockWithRetry_from work b retries attempt s = (Inr (), s')"
      using retry_success [OF lt] w by simp
    then show ?thesis using ab by (intro exI [of _ 1]) simp
  next
    case (Inl err)
    show ?thesis
    proof (cases "isRateLimited (messageOr [] err)")
      case False
      then have "processBlockWithRetry_from work b retries attempt s = (Inl err, s')"
        using retry_fatal [OF lt] w Inl by simp
      then show ?thesis using ab by (intro exI [of _ 1]) simp
    next
      case True
      let ?s'' = "emit (Backoff (3 ^ (attempt + 4) * 1000)) s'"
      have eq: "processBlockWithRetry_from work b retries attempt s =
                processBlockWithRetry_from work b retries (Suc attempt) ?s''"
        using retry_retryable [OF lt] w Inl True by simp
      have n: "n = retries - Suc attempt" using Suc.hyps(2) by simp
      from Suc.hyps(1) [OF n, of ?s''] obtain m where
        m: "attemptedBlocks (snd (processBlockWithRetry_from work b retries (Suc attempt) ?s'')) =
            attemptedBlocks ?s'' @ replicate m b"
        by blast
      have "attemptedBlocks ?s'' = attemptedBlocks s @ [b]"
        using ab by (simp add: attemptedBlocks_emit)
      then have "attemptedBlocks (snd (processBlockWithRetry_from work b retries attempt s)) =
          attemptedBlocks s @ replicate (Suc m) b"
        unfolding eq m by simp
      then show ?thesis by blast
    qed
  qed
qed

lemma remdups_adj_replicate_append:
  "0 < n \<Longrightarrow> ys = [] \<or> hd ys \<noteq> b \<Longrightarrow> remdups_adj (replicate n b @ ys) = b # remdups_adj ys"
proof (induction n)
  case 0
  then show ?case by simp
next
  case (Suc n)
  show ?case
  proof (cases n)
    case 0
    then show ?thesis using Suc.prems(2) by (cases ys) auto
  next
    case (Suc k)
    then have "remdups_adj (replicate n b @ ys) = b # remdups_adj ys"
      using Suc.IH Suc.prems(2) by simp
    then show ?thesis using Suc by simp
  qed
qed

lemma processBlocks_attemptedBlocks:
  "\<exists>xs. attemptedBlocks (snd (processBlocks cfg w blockNum endBlock sp s)) = attemptedBlocks s @ xs \<and>
        remdups_adj xs = [blockNum..endBlock] \<and> (xs = [] \<or> hd xs = blockNum)"
proof (induction "nat (endBlock + 1 - blockNum)" arbitrary: blockNum sp s)
  case 0
  then have nle: "\<not> blockNum \<le> endBlock" by simp
  then have "processBlocks cfg w blockNum endBlock sp s = (sp, s)"
    by (subst processBlocks.simps) simp
  then show ?case using nle by (intro exI [of _ "[]"]) simp
next
  case (Suc n)
  then have le: "blockNum \<le> endBlock" by simp
  have n: "n = nat (endBlock + 1 - (blockNum + 1))" using Suc.hyps(2) by simp
  obtain r s1 where r: "processBlockWithRetry (processBlock cfg w blockNum) blockNum 3 s = (r, s1)"
    by (cases "processBlockWithRetry (processBlock cfg w blockNum) blockNum 3 s")
  obtain k where k: "0 < k" "attemptedBlocks s1 = attemptedBlocks s @ replicate k blockNum"
    using retry_attemptedBlocks [of "processBlock cfg w blockNum" 0 3 blockNum s,
        OF processBlock_retryEvents] r
    by (auto simp: processBlockWithRetry_def)
  define s2 where "s2 = (case r of Inr u \<Rightarrow> s1 | Inl err \<Rightarrow> emit (SkippedBlock blockNum) s1)"
  have s2: "attemptedBlocks s2 = attemptedBlocks s @ replicate k blockNum"
    using k(2) by (cases r) (simp_all add: s2_def attemptedBlocks_emit)
  have unfold: "processBlocks cfg w blockNum endBlock sp s =
                processBlocks cfg w (blockNum + 1) endBlock blockNum s2"
    using le r by (subst processBlocks.simps) (cases r; simp add: s2_def)
  from Suc.hyps(1) [OF n, of blockNum s2] obtain ys where
    ys: "attemptedBlocks (snd (processBlocks cfg w (blockNum + 1) endBlock blockNum s2)) =
           attemptedBlocks s2 @ ys"
       "remdups_adj ys = [blockNum + 1..endBlock]" "ys = [] \<or> hd ys = blockNum + 1"
    by blast
  have hd: "ys = [] \<or> hd ys \<noteq> blockNum" using ys(3) by auto
  have "remdups_adj (replicate k blockNum @ ys) = blockNum # remdups_adj ys"
    by (rule remdups_adj_replicate_append [OF k(1) hd])
  then have "remdups_adj (replicate k blockNum @ ys) = [blockNum..endBlock]"
    using ys(2) le by (simp add: upto_rec1)
  moreover have "hd (replicate k blockNum @ ys) = blockNum" using k(1) by (cases k) simp_all
  moreover have "attemptedBlocks (snd (processBlocks cfg w blockNum endBlock sp s)) =
      attemptedBlocks s @ (replicate k blockNum @ ys)"
    unfolding unfold ys(1) s2 by simp
  ultimately show ?case by blast
qed

lemma monitoringLoop_unfold:
  assumes "getLatestBlock w = Inr H" and "lastProcessedBlock s < H"
  shows "monitoringLoop cfg w s =
           (snd (processBlocks cfg w (lastProcessedBlock s + 1)
                   (lastProcessedBlock s + min (H - lastProcessedBlock s) (maxBlocksPerQuery cfg))
                   (lastProcessedBlock s) s))
           \<lparr>lastProcessedBlock :=
              fst (processBlocks cfg w (lastProcessedBlock s + 1)
                   (lastProcessedBlock s + min (H - lastProcessedBlock s) (maxBlocksPerQuery cfg))
                   (lastProcessedBlock s) s)\<rparr>"
  using assms by (simp add: monitoringLoop_def Let_def split: prod.splits)

lemma monitoringLoop_cursor:
  assumes "getLatestBlock w = Inr H" and "lastProcessedBlock s < H" and "0 \<le> maxBlocksPerQuery cfg"
  shows "lastProcessedBlock (monitoringLoop cfg w s) =
           lastProcessedBlock s + min (H - lastProcessedBlock s) (maxBlocksPerQuery cfg)"
  unfolding monitoringLoop_unfold [OF assms(1,2)]
  using assms(2,3) by (simp add: processBlocks_cursor)

text \<open>
  Claim C3, as amended. With the head \<open>H\<close> observed and the cursor at \<open>L\<close>: if \<open>H \<le> L\<close> the tick
  changes nothing; otherwise, for a cap \<open>C\<close> that is not negative, the tick queries exactly the
  blocks \<open>L+1\<close> to \<open>L + min (H-L) C\<close>, one after the other in increasing order (a block is
  queried again only while it is being retried), no block beyond, and leaves the cursor at
  \<open>L + min (H-L) C\<close>, whether or not blocks were skipped.
\<close>

theorem monitoringLoop_bounded_window:
  assumes "getLatestBlock w = Inr H"
  shows "(H \<le> lastProcessedBlock s \<longrightarrow> monitoringLoop cfg w s = s) \<and>
         (lastProcessedBlock s < H \<and> 0 \<le> maxBlocksPerQuery cfg \<longrightarrow>
            lastProcessedBlock (monitoringLoop cfg w s) =
              lastProcessedBlock s + min (H - lastProcessedBlock s) (maxBlocksPerQuery cfg) \<and>
            (\<exists>xs. attemptedBlocks (monitoringLoop cfg w s) = attemptedBlocks s @ xs \<and>
                  remdups_adj xs =
                    [lastProcessedBlock s + 1 ..
                     lastProcessedBlock s + min (H - lastProcessedBlock s) (maxBlocksPerQuery cfg)]))"
proof (intro conjI impI)
  assume "H \<le> lastProcessedBlock s"
  then show "monitoringLoop cfg w s = s" using assms by (simp add: monitoringLoop_def)
next
  assume h: "lastProcessedBlock s < H \<and> 0 \<le> maxBlocksPerQuery cfg"
  then show "lastProcessedBlock (monitoringLoop cfg w s) =
              lastProcessedBlock s + min (H - lastProcessedBlock s) (maxBlocksPerQuery cfg)"
    using monitoringLoop_cursor [OF assms] by blast
next
  assume h: "lastProcessedBlock s < H \<and> 0 \<le> maxBlocksPerQuery cfg"
  let ?E = "lastProcessedBlock s + min (H - lastProcessedBlock s) (maxBlocksPerQuery cfg)"
  let ?r = "processBlocks cfg w (lastProcessedBlock s + 1) ?E (lastProcessedBlock s) s"
  have lt: "lastProcessedBlock s < H" using h by simp
  obtain xs where xs: "attemptedBlocks (snd ?r) = attemptedBlocks s @ xs"
      "remdups_adj xs = [lastProcessedBlock s + 1..?E]"
    using processBlocks_attemptedBlocks [of cfg w "lastProcessedBlock s + 1" ?E "lastProcessedBlock s" s]
    by blast
  have "attemptedBlocks (monitoringLoop cfg w s) = attemptedBlocks (snd ?r)"
    unfolding monitoringLoop_unfold [OF assms lt]
    by (simp add: attemptedBlocks_def retryEvents_def)
  then show "\<exists>xs. attemptedBlocks (monitoringLoop cfg w s) = attemptedBlocks s @ xs \<and>
                  remdups_adj xs = [lastProcessedBlock s + 1 .. ?E]"
    using xs by auto
qed

text \<open>
  Claim C6. A failed attempt to process a block leaves the whole service state as it was;
  when the retry wrapper gives a block up, the store, the cursor and the registry are as
  before the block and only attempts and delays have been recorded; the loop then goes on
  with the next block, and the cursor ends at the end of the window whatever failed.
\<close>

theorem failed_unit_changes_no_state:
  "(processBlock cfg w b k s = (Inl err, s') \<longrightarrow> s' = s) \<and>
   (processBlockWithRetry (processBlock cfg w b) b retries s = (Inl err, s') \<longrightarrow>
      database s' = database s \<and> lastProcessedBlock s' = lastProcessedBlock s \<and>
      jobAddresses s' = jobAddresses s \<and>
      (\<exists>evs. trace s' = trace s @ evs \<and> (\<forall>ev \<in> set evs. isRetryEvent ev))) \<and>
   (b \<le> endBlock \<and> processBlockWithRetry (processBlock cfg w b) b 3 s = (Inl err, s') \<longrightarrow>
      processBlocks cfg w b endBlock sp s =
        processBlocks cfg w (b + 1) endBlock b (emit (SkippedBlock b) s')) \<and>
   (b \<le> endBlock \<longrightarrow> fst (processBlocks cfg w b endBlock sp s) = endBlock) \<and>
   (getLatestBlock w = Inr H \<and> lastProcessedBlock s < H \<and> 0 \<le> maxBlocksPerQuery cfg \<longrightarrow>
      lastProcessedBlock (monitoringLoop cfg w s) =
        lastProcessedBlock s + min (H - lastProcessedBlock s) (maxBlocksPerQuery cfg))"
proof (intro conjI impI)
  assume "processBlock cfg w b k s = (Inl err, s')"
  then show "s' = s" by (rule processBlock_fails)
next
  assume "processBlockWithRetry (processBlock cfg w b) b retries s = (Inl err, s')"
  then obtain evs where evs: "s' = s\<lparr>trace := trace s @ evs\<rparr>" "\<forall>ev \<in> set evs. isRetryEvent ev"
    using retry_processBlock_fails [of cfg w b retries 0 s err s']
    by (auto simp: processBlockWithRetry_def)
  show "database s' = database s" "lastProcessedBlock s' = lastProcessedBlock s"
    "jobAddresses s' = jobAddresses s"
    using evs(1) by simp_all
  show "\<exists>evs. trace s' = trace s @ evs \<and> (\<forall>ev \<in> set evs. isRetryEvent ev)"
    using evs by auto
next
  assume "b \<le> endBlock \<and> processBlockWithRetry (processBlock cfg w b) b 3 s = (Inl err, s')"
  then show "processBlocks cfg w b endBlock sp s =
        processBlocks cfg w (b + 1) endBlock b (emit (SkippedBlock b) s')"
    by (subst processBlocks.simps) simp
next
  assume "b \<le> endBlock"
  then show "fst (processBlocks cfg w b endBlock sp s) = endBlock"
    by (simp add: processBlocks_cursor)
next
  assume "getLatestBlock w = Inr H \<and> lastProcessedBlock s < H \<and> 0 \<le> maxBlocksPerQuery cfg"
  then show "lastProcessedBlock (monitoringLoop cfg w s) =
        lastProcessedBlock s + min (H - lastProcessedBlock s) (maxBlocksPerQuery cfg)"
    using monitoringLoop_cursor by blast
qed

lemma processBlock_rateLimitedWorld:
  "processBlock exampleConfig rateLimitedWorld b k (freshService\<lparr>trace := tr\<rparr>) =
     (Inl (Error ''429 Too Many Requests''), freshService\<lparr>trace := tr\<rparr>)"
  by (simp add: processBlock_def checkMultipleJobsWorkable_def checkJobWorkable_def rateLimitedWorld_def
      isRateLimitingError_def rateLimitSignature_429 messageOr_def quietWorld_def freshService_def)

lemma retry_rateLimitedWorld:
  "processBlockWithRetry (processBlock exampleConfig rateLimitedWorld 1) 1 3 freshService =
     (Inl (Error ''Failed to process block 1 after 3 attempts due to rate limiting''),
      freshService\<lparr>trace := [Attempt 1 0, Backoff 81000, Attempt 1 1, Backoff 243000,
                                Attempt 1 2, Backoff 729000]\<rparr>)"
proof -
  have e: "\<And>ev tr. emit ev (freshService\<lparr>trace := tr\<rparr>) = freshService\<lparr>trace := tr @ [ev]\<rparr>"
    by (simp add: emit_def)
  have f: "freshService = freshService\<lparr>trace := []\<rparr>" by (simp add: freshService_def)
  show ?thesis
    unfolding processBlockWithRetry_def
    by (subst f, simp add: processBlockWithRetry_from.simps e processBlock_rateLimitedWorld
        messageOr_def isRateLimited_429 showNumber_examples)
qed

theorem monitoringLoop_bounded_window_witness:
  "getLatestBlock quietWorld = Inr 4 \<and>
   monitoringLoop exampleConfig quietWorld (freshService\<lparr>lastProcessedBlock := 4\<rparr>) =
     freshService\<lparr>lastProcessedBlock := 4\<rparr> \<and>
   lastProcessedBlock (monitoringLoop exampleConfig quietWorld freshService) = 4 \<and>
   (\<exists>xs. attemptedBlocks (monitoringLoop exampleConfig quietWorld freshService) = xs \<and>
         remdups_adj xs = [1..4])"
proof -
  have head: "getLatestBlock quietWorld = Inr 4" by (simp add: getLatestBlock_def quietWorld_def)
  have ab: "attemptedBlocks freshService = []"
    by (simp add: attemptedBlocks_def retryEvents_def freshService_def)
  have l: "lastProcessedBlock freshService = 0" "maxBlocksPerQuery exampleConfig = 100"
    by (simp_all add: freshService_def exampleConfig_def)
  show ?thesis
    using monitoringLoop_bounded_window [OF head, of "freshService\<lparr>lastProcessedBlock := 4\<rparr>" exampleConfig]
      monitoringLoop_bounded_window [OF head, of freshService exampleConfig]
    by (simp add: head ab l)
qed

text \<open>
  Claim C3 as stated, with the skipped units subtracted from the advance, fails on a tick
  in which the ledger keeps answering with a rate-limit error: the head is 2 blocks ahead,
  both blocks are skipped, and the cursor still advances by 2, not by 0.
\<close>

theorem monitoringLoop_skipped_units_not_subtracted:
  "getLatestBlock rateLimitedWorld = Inr 2 \<and> lastProcessedBlock freshService = 0 \<and>
   maxBlocksPerQuery exampleConfig = 100 \<and>
   skippedBlocks (monitoringLoop exampleConfig rateLimitedWorld freshService) = [1, 2] \<and>
   lastProcessedBlock (monitoringLoop exampleConfig rateLimitedWorld freshService) = 2 \<and>
   lastProcessedBlock (monitoringLoop exampleConfig rateLimitedWorld freshService) -
     lastProcessedBlock freshService \<noteq>
   min (2 - lastProcessedBlock freshService) (maxBlocksPerQuery exampleConfig) -
     int (length (skippedBlocks (monitoringLoop exampleConfig rateLimitedWorld freshService)))"
proof -
  have e: "\<And>ev tr. emit ev (freshService\<lparr>trace := tr\<rparr>) = freshService\<lparr>trace := tr @ [ev]\<rparr>"
    by (simp add: emit_def)
  have f: "freshService = freshService\<lparr>trace := []\<rparr>" by (simp add: freshService_def)
  have head: "getLatestBlock rateLimitedWorld = Inr 2"
    by (simp add: getLatestBlock_def rateLimitedWorld_def)
  have l: "lastProcessedBlock freshService = 0" "maxBlocksPerQuery exampleConfig = 100"
    by (simp_all add: freshService_def exampleConfig_def)
  have run: "processBlocks exampleConfig rateLimitedWorld 1 2 0 (freshService\<lparr>trace := []\<rparr>) =
      (2, freshService\<lparr>trace := [Attempt 1 0, Backoff 81000, Attempt 1 1, Backoff 243000,
                                Attempt 1 2, Backoff 729000, SkippedBlock 1,
                                Attempt 2 0, Backoff 81000, Attempt 2 1, Backoff 243000,
                                Attempt 2 2, Backoff 729000, SkippedBlock 2]\<rparr>)"
    by (simp add: processBlocks.simps processBlockWithRetry_def processBlockWithRetry_from.simps e
        processBlock_rateLimitedWorld messageOr_def isRateLimited_429)
  have ml: "monitoringLoop exampleConfig rateLimitedWorld freshService =
      freshService\<lparr>trace := [Attempt 1 0, Backoff 81000, Attempt 1 1, Backoff 243000,
                                Attempt 1 2, Backoff 729000, SkippedBlock 1,
                                Attempt 2 0, Backoff 81000, Attempt 2 1, Backoff 243000,
                                Attempt 2 2, Backoff 729000, SkippedBlock 2],
                   lastProcessedBlock := 2\<rparr>"
    using run f by (simp add: monitoringLoop_def head l)
  show ?thesis
    unfolding ml by (simp add: head l skippedBlocks_def)
qed

theorem failed_unit_changes_no_state_witness:
  "processBlock exampleConfig rateLimitedWorld 1 0 freshService =
     (Inl (Error ''429 Too Many Requests''), freshService) \<and>
   fst (processBlockWithRetry (processBlock exampleConfig rateLimitedWorld 1) 1 3 freshService) =
     Inl (Error ''Failed to process block 1 after 3 attempts due to rate limiting'') \<and>
   database (snd (processBlockWithRetry (processBlock exampleConfig rateLimitedWorld 1) 1 3 freshService)) =
     database freshService \<and>
   fst (processBlocks exampleConfig rateLimitedWorld 1 2 0 freshService) = 2 \<and>
   lastProcessedBlock (monitoringLoop exampleConfig rateLimitedWorld freshService) = 2"
proof -
  let ?s' = "freshService\<lparr>trace := [Attempt 1 0, Backoff 81000, Attempt 1 1, Backoff 243000,
                                Attempt 1 2, Backoff 729000]\<rparr>"
  let ?err = "Error ''Failed to process block 1 after 3 attempts due to rate limiting''"
  note main = failed_unit_changes_no_state [where cfg = exampleConfig and w = rateLimitedWorld
      and b = 1 and s = freshService and retries = 3 and endBlock = 2 and sp = 0 and H = 2]
  have pb: "processBlock exampleConfig rateLimitedWorld 1 0 freshService =
     (Inl (Error ''429 Too Many Requests''), freshService)"
    using processBlock_rateLimitedWorld [of 1 0 "[]"] by (simp add: freshService_def)
  have head: "getLatestBlock rateLimitedWorld = Inr 2"
    by (simp add: getLatestBlock_def rateLimitedWorld_def)
  have l: "lastProcessedBlock freshService = 0" "maxBlocksPerQuery exampleConfig = 100"
    by (simp_all add: freshService_def exampleConfig_def)
  have "database (snd (processBlockWithRetry (processBlock exampleConfig rateLimitedWorld 1) 1 3 freshService)) =
     database freshService"
    using main [where err = ?err and s' = ?s', THEN conjunct2, THEN conjunct1] retry_rateLimitedWorld
    by simp
  moreover have "fst (processBlocks exampleConfig rateLimitedWorld 1 2 0 freshService) = 2"
    using main [THEN conjunct2, THEN conjunct2, THEN conjunct2, THEN conjunct1] by simp
  moreover have "lastProcessedBlock (monitoringLoop exampleConfig rateLimitedWorld freshService) = 2"
    using main [THEN conjunct2, THEN conjunct2, THEN conjunct2, THEN conjunct2] head l by simp
  ultimately show ?thesis using pb retry_rateLimitedWorld by simp
qed

section \<open>The batch query\<close>

lemma not_rateLimitSignature_unknown: "\<not> rateLimitSignature ''Unknown error''"
  by (simp add: rateLimitSignature_def toLowerCase_def toLowerCaseChar_def)

lemma checkJobWorkable_Inl:
  "checkJobWorkable w a b k = Inl err \<Longrightarrow> isRateLimitingError (Inl err)"
  by (cases err)
     (auto simp: checkJobWorkable_def isRateLimitingError_def messageOr_def
        not_rateLimitSignature_unknown split: sum.splits if_splits)

lemma checkJobWorkable_fatal:
  "contract_workable w a b k = Inl err \<Longrightarrow> \<not> rateLimitSignature (messageOr ''Unknown error'' err) \<Longrightarrow>
   checkJobWorkable w a b k = Inr (errorResult a b err)"
  by (simp add: checkJobWorkable_def errorResult_def)

lemma filter_rateLimiting_empty:
  "filter isRateLimitingError (map (\<lambda>a. checkJobWorkable w a b k) addrs) = [] \<longleftrightarrow>
   (\<forall>a \<in> set addrs. \<exists>st. checkJobWorkable w a b k = Inr st)"
proof
  assume e: "filter isRateLimitingError (map (\<lambda>a. checkJobWorkable w a b k) addrs) = []"
  show "\<forall>a \<in> set addrs. \<exists>st. checkJobWorkable w a b k = Inr st"
  proof
    fix a assume a: "a \<in> set addrs"
    have "\<not> isRateLimitingError (checkJobWorkable w a b k)"
      using e a by (auto simp: filter_empty_conv)
    then show "\<exists>st. checkJobWorkable w a b k = Inr st"
      using checkJobWorkable_Inl [of w a b k] by (cases "checkJobWorkable w a b k") auto
  qed
next
  assume "\<forall>a \<in> set addrs. \<exists>st. checkJobWorkable w a b k = Inr st"
  then show "filter isRateLimitingError (map (\<lambda>a. checkJobWorkable w a b k) addrs) = []"
    by (auto simp: filter_empty_conv isRateLimitingError_def)
qed

lemma checkMultipleJobsWorkable_fails_iff:
  "(\<exists>err. checkMultipleJobsWorkable w addrs b k = Inl err) \<longleftrightarrow>
   (\<exists>a \<in> set addrs. \<exists>err. checkJobWorkable w a b k = Inl err)"
proof (cases "filter isRateLimitingError (map (\<lambda>a. checkJobWorkable w a b k) addrs)")
  case Nil
  then have "\<forall>a \<in> set addrs. \<exists>st. checkJobWorkable w a b k = Inr st"
    using filter_rateLimiting_empty by blast
  moreover have "\<exists>sts. checkMultipleJobsWorkable w addrs b k = Inr sts"
    using Nil by (simp add: checkMultipleJobsWorkable_def)
  ultimately show ?thesis by fastforce
next
  case (Cons r rs)
  then have "r \<in> set (filter isRateLimitingError (map (\<lambda>a. checkJobWorkable w a b k) addrs))"
    by simp
  then have r: "isRateLimitingError r" "r \<in> set (map (\<lambda>a. checkJobWorkable w a b k) addrs)"
    by auto
  obtain err where err: "r = Inl err"
    using r(1) by (cases r) (auto simp: isRateLimitingError_def)
  have "checkMultipleJobsWorkable w addrs b k = Inl err"
    using Cons err by (simp add: checkMultipleJobsWorkable_def)
  moreover have "\<exists>a \<in> set addrs. checkJobWorkable w a b k = Inl err"
    using r(2) err by auto
  ultimately show ?thesis by blast
qed

lemma checkMultipleJobsWorkable_succeeds:
  assumes "\<forall>a \<in> set addrs. \<exists>st. checkJobWorkable w a b k = Inr st"
  shows "\<exists>sts. checkMultipleJobsWorkable w addrs b k = Inr sts \<and> length sts = length addrs \<and>
           (\<forall>n < length addrs. checkJobWorkable w (addrs ! n) b k = Inr (sts ! n))"
proof -
  let ?results = "map (\<lambda>a. checkJobWorkable w a b k) addrs"
  let ?sts = "map (\<lambda>(result, a). case result of Inr v \<Rightarrow> v
        | Inl reason \<Rightarrow> \<lparr> status_address = a, workable = False, status_blockNumber = b,
                          error = Some (messageOr ''Unknown error'' reason) \<rparr>) (zip ?results addrs)"
  have "filter isRateLimitingError ?results = []"
    using assms filter_rateLimiting_empty by blast
  then have 1: "checkMultipleJobsWorkable w addrs b k = Inr ?sts"
    by (simp add: checkMultipleJobsWorkable_def)
  have 2: "length ?sts = length addrs" by simp
  have 3: "\<forall>n < length addrs. checkJobWorkable w (addrs ! n) b k = Inr (?sts ! n)"
  proof (intro allI impI)
    fix n assume n: "n < length addrs"
    then obtain st where st: "checkJobWorkable w (addrs ! n) b k = Inr st"
      using assms by (meson nth_mem)
    then show "checkJobWorkable w (addrs ! n) b k = Inr (?sts ! n)"
      using n by simp
  qed
  show ?thesis using 1 2 3 by blast
qed

lemma processJobStatus_not_eligible:
  assumes "db (database s) = Some t" and "a \<noteq> []" and "status_address jobStatus = a"
    and "getJob_fault w a b = None" and "upsertJob_fault w a b = NoFault"
    and "\<not> eligibleObservation jobStatus"
  shows "consecutiveWorkableBlocks (tracked a b' (processJobStatus cfg w jobStatus b s)) = 0"
    and "\<not> isCurrentlyWorkable (tracked a b' (processJobStatus cfg w jobStatus b s))"
  using assms(6)
  by (simp_all only: processJobStatus_step(1) [OF assms(1-5)] asStored_counter
      updateJobInfo_counter updateJobInfo_isCurrentlyWorkable if_False not_False_eq_True)

text \<open>
  Claim C7. When the contract call of one job of the registry fails, in some attempt at a
  block, with an error that has no rate-limit signature: the job's own check returns an error
  result (not workable, the message recorded) instead of throwing; the batch throws only if
  some job's check throws, which only a rate-limit signature causes, so this failure never
  fails the batch; when no job is rate limited the batch returns one result per job, each the
  result of that job's own check, the failing job's being the error result; and
  \<open>processJobStatus\<close>, on a healthy store, takes the error result as not workable: the stored
  counter becomes 0 and the job is stored as not workable.
\<close>

theorem nonretryable_check_failure_is_contained:
  assumes "contract_workable w a b k = Inl err"
    and "\<not> rateLimitSignature (messageOr ''Unknown error'' err)"
    and "i < length addrs" and "addrs ! i = a"
  shows "checkJobWorkable w a b k =
           Inr \<lparr> status_address = a, workable = False, status_blockNumber = b,
                 error = Some (messageOr ''Unknown error'' err) \<rparr> \<and>
         ((\<exists>e. checkMultipleJobsWorkable w addrs b k = Inl e) \<longleftrightarrow>
          (\<exists>n < length addrs. n \<noteq> i \<and> (\<exists>e. checkJobWorkable w (addrs ! n) b k = Inl e))) \<and>
         ((\<forall>n < length addrs. \<exists>st. checkJobWorkable w (addrs ! n) b k = Inr st) \<longrightarrow>
          (\<exists>sts. checkMultipleJobsWorkable w addrs b k = Inr sts \<and> length sts = length addrs \<and>
                 (\<forall>n < length addrs. checkJobWorkable w (addrs ! n) b k = Inr (sts ! n)) \<and>
                 sts ! i = \<lparr> status_address = a, workable = False, status_blockNumber = b,
                             error = Some (messageOr ''Unknown error'' err) \<rparr>)) \<and>
         (\<forall>cfg s t. db (database s) = Some t \<and> a \<noteq> [] \<and> getJob_fault w a b = None \<and>
                    upsertJob_fault w a b = NoFault \<longrightarrow>
            consecutiveWorkableBlocks
              (tracked a b (processJobStatus cfg w
                 \<lparr> status_address = a, workable = False, status_blockNumber = b,
                   error = Some (messageOr ''Unknown error'' err) \<rparr> b s)) = 0 \<and>
            \<not> isCurrentlyWorkable
              (tracked a b (processJobStatus cfg w
                 \<lparr> status_address = a, workable = False, status_blockNumber = b,
                   error = Some (messageOr ''Unknown error'' err) \<rparr> b s)))"
proof (intro conjI allI impI)
  let ?st = "\<lparr> status_address = a, workable = False, status_blockNumber = b,
                 error = Some (messageOr ''Unknown error'' err) \<rparr>"
  show own: "checkJobWorkable w a b k = Inr ?st"
    using checkJobWorkable_fatal [OF assms(1,2)] by (simp add: errorResult_def)
  show "(\<exists>e. checkMultipleJobsWorkable w addrs b k = Inl e) \<longleftrightarrow>
          (\<exists>n < length addrs. n \<noteq> i \<and> (\<exists>e. checkJobWorkable w (addrs ! n) b k = Inl e))"
  proof
    assume "\<exists>e. checkMultipleJobsWorkable w addrs b k = Inl e"
    then obtain a' e where a': "a' \<in> set addrs" "checkJobWorkable w a' b k = Inl e"
      using checkMultipleJobsWorkable_fails_iff [of w addrs b k] by blast
    then obtain n where n: "n < length addrs" "addrs ! n = a'"
      by (auto simp: in_set_conv_nth)
    have "n \<noteq> i" using own a'(2) n(2) assms(4) by auto
    then show "\<exists>n < length addrs. n \<noteq> i \<and> (\<exists>e. checkJobWorkable w (addrs ! n) b k = Inl e)"
      using n a'(2) by blast
  next
    assume "\<exists>n < length addrs. n \<noteq> i \<and> (\<exists>e. checkJobWorkable w (addrs ! n) b k = Inl e)"
    then have "\<exists>a' \<in> set addrs. \<exists>e. checkJobWorkable w a' b k = Inl e"
      by (meson nth_mem)
    then show "\<exists>e. checkMultipleJobsWorkable w addrs b k = Inl e"
      using checkMultipleJobsWorkable_fails_iff [of w addrs b k] by blast
  qed
  {
    assume all: "\<forall>n < length addrs. \<exists>st. checkJobWorkable w (addrs ! n) b k = Inr st"
    then have "\<forall>a' \<in> set addrs. \<exists>st. checkJobWorkable w a' b k = Inr st"
      by (metis in_set_conv_nth)
    then obtain sts where sts: "checkMultipleJobsWorkable w addrs b k = Inr sts"
        "length sts = length addrs"
        "\<forall>n < length addrs. checkJobWorkable w (addrs ! n) b k = Inr (sts ! n)"
      using checkMultipleJobsWorkable_succeeds [of addrs w b k] by blast
    have "sts ! i = ?st" using sts(3) assms(3,4) own by fastforce
    then show "\<exists>sts. checkMultipleJobsWorkable w addrs b k = Inr sts \<and> length sts = length addrs \<and>
                 (\<forall>n < length addrs. checkJobWorkable w (addrs ! n) b k = Inr (sts ! n)) \<and>
                 sts ! i = ?st"
      using sts by blast
  }
  fix cfg :: MonitoringConfig and s :: MonitoringService and t :: jobs_table
  assume h: "db (database s) = Some t \<and> a \<noteq> [] \<and> getJob_fault w a b = None \<and>
                    upsertJob_fault w a b = NoFault"
  have ne: "\<not> eligibleObservation ?st" by (simp add: eligibleObservation_def)
  have h1: "db (database s) = Some t" and h2: "a \<noteq> []" and h3: "getJob_fault w a b = None"
    and h4: "upsertJob_fault w a b = NoFault" using h by simp_all
  have h0: "status_address ?st = a" by simp
  show "consecutiveWorkableBlocks (tracked a b (processJobStatus cfg w ?st b s)) = 0"
    by (rule processJobStatus_not_eligible(1) [OF h1 h2 h0 h3 h4 ne])
  show "\<not> isCurrentlyWorkable (tracked a b (processJobStatus cfg w ?st b s))"
    by (rule processJobStatus_not_eligible(2) [OF h1 h2 h0 h3 h4 ne])
qed

lemma checkJobWorkable_revertingWorld:
  "checkJobWorkable revertingWorld autoLineJob 5 0 =
     Inr \<lparr> status_address = autoLineJob, workable = False, status_blockNumber = 5,
           error = Some ''execution reverted'' \<rparr>"
  "checkJobWorkable revertingWorld lerpJob 5 0 =
     Inr \<lparr> status_address = lerpJob, workable = True, status_blockNumber = 5, error = None \<rparr>"
  by (simp_all add: checkJobWorkable_def revertingWorld_def quietWorld_def messageOr_def
      not_rateLimitSignature_reverted autoLineJob_def lerpJob_def)

theorem nonretryable_check_failure_is_contained_witness:
  "contract_workable revertingWorld autoLineJob 5 0 = Inl (Error ''execution reverted'') \<and>
   \<not> rateLimitSignature (messageOr ''Unknown error'' (Error ''execution reverted'')) \<and>
   checkJobWorkable revertingWorld autoLineJob 5 0 =
     Inr \<lparr> status_address = autoLineJob, workable = False, status_blockNumber = 5,
           error = Some ''execution reverted'' \<rparr> \<and>
   (\<exists>sts. checkMultipleJobsWorkable revertingWorld [autoLineJob, lerpJob] 5 0 = Inr sts \<and>
          length sts = 2 \<and>
          sts ! 0 = \<lparr> status_address = autoLineJob, workable = False, status_blockNumber = 5,
                      error = Some ''execution reverted'' \<rparr> \<and>
          checkJobWorkable revertingWorld lerpJob 5 0 = Inr (sts ! 1)) \<and>
   consecutiveWorkableBlocks
     (tracked autoLineJob 5 (processJobStatus exampleConfig revertingWorld
        \<lparr> status_address = autoLineJob, workable = False, status_blockNumber = 5,
          error = Some ''execution reverted'' \<rparr> 5 workableOnceService)) = 0"
proof -
  have c: "contract_workable revertingWorld autoLineJob 5 0 = Inl (Error ''execution reverted'')"
    by (simp add: revertingWorld_def)
  have r: "\<not> rateLimitSignature (messageOr ''Unknown error'' (Error ''execution reverted''))"
    by (simp add: messageOr_def not_rateLimitSignature_reverted)
  note main = nonretryable_check_failure_is_contained [OF c r, of 0 "[autoLineJob, lerpJob]"]
  have all: "\<forall>n < length [autoLineJob, lerpJob].
      \<exists>st. checkJobWorkable revertingWorld ([autoLineJob, lerpJob] ! n) 5 0 = Inr st"
    by (simp add: less_Suc_eq nth_Cons' checkJobWorkable_revertingWorld)
  have own: "checkJobWorkable revertingWorld autoLineJob 5 0 =
     Inr \<lparr> status_address = autoLineJob, workable = False, status_blockNumber = 5,
           error = Some ''execution reverted'' \<rparr>"
    using main [THEN conjunct1] by (simp add: messageOr_def)
  have batch: "\<exists>sts. checkMultipleJobsWorkable revertingWorld [autoLineJob, lerpJob] 5 0 = Inr sts \<and>
          length sts = 2 \<and>
          sts ! 0 = \<lparr> status_address = autoLineJob, workable = False, status_blockNumber = 5,
                      error = Some ''execution reverted'' \<rparr> \<and>
          checkJobWorkable revertingWorld lerpJob 5 0 = Inr (sts ! 1)"
    using main [THEN conjunct2, THEN conjunct2, THEN conjunct1] all
    by (auto simp: messageOr_def)
  have healthy: "db (database workableOnceService) = Some workableOnceTable \<and> autoLineJob \<noteq> [] \<and>
      getJob_fault revertingWorld autoLineJob 5 = None \<and>
      upsertJob_fault revertingWorld autoLineJob 5 = NoFault"
    by (simp add: workableOnceService_def freshService_def revertingWorld_def quietWorld_def
        autoLineJob_def)
  have reset: "consecutiveWorkableBlocks
     (tracked autoLineJob 5 (processJobStatus exampleConfig revertingWorld
        \<lparr> status_address = autoLineJob, workable = False, status_blockNumber = 5,
          error = Some ''execution reverted'' \<rparr> 5 workableOnceService)) = 0"
    using main [THEN conjunct2, THEN conjunct2, THEN conjunct2, rule_format,
        of workableOnceService workableOnceTable exampleConfig] healthy
    by (simp add: messageOr_def)
  show ?thesis using c r own batch reset by blast
qed

section \<open>The alert sink\<close>

lemma updateJobInfo_sink:
  "fst (updateJobInfo cfg (w\<lparr>discord_sendAlert := f\<rparr>) jobStatus b j s) =
     fst (updateJobInfo cfg w jobStatus b j s)"
  "eraseDelivery (snd (updateJobInfo cfg (w\<lparr>discord_sendAlert := f\<rparr>) jobStatus b j s)) =
     eraseDelivery (snd (updateJobInfo cfg w jobStatus b j s))"
  by (simp_all add: updateJobInfo_def Let_def sendAlert_def emit_def eraseDelivery_def)

lemma eraseDelivery_database:
  "eraseDelivery (s\<lparr>database := D\<rparr>) = (eraseDelivery s)\<lparr>database := D\<rparr>"
  by (simp add: eraseDelivery_def)

lemma processJobStatus_sink:
  "eraseDelivery (processJobStatus cfg (w\<lparr>discord_sendAlert := f\<rparr>) jobStatus b s) =
   eraseDelivery (processJobStatus cfg w jobStatus b s)"
proof (cases "getJob (getJob_fault w (status_address jobStatus) b) (status_address jobStatus) (database s)")
  case (Inl err)
  then show ?thesis by (simp add: processJobStatus_def)
next
  case (Inr found)
  define j0 where "j0 = (case found of Some j \<Rightarrow> j
      | None \<Rightarrow> \<lparr> address = status_address jobStatus, name = Some (getJobName (status_address jobStatus)),
          description = None, lastWorkedBlock = None, consecutiveWorkableBlocks = 0,
          isCurrentlyWorkable = False, lastCheckedBlock = b, alertsSent = 0, lastAlertBlock = None \<rparr>)"
  let ?w' = "w\<lparr>discord_sendAlert := f\<rparr>"
  obtain j1 s1 where u: "updateJobInfo cfg w jobStatus b j0 s = (j1, s1)"
    by (cases "updateJobInfo cfg w jobStatus b j0 s")
  obtain j1' s1' where u': "updateJobInfo cfg ?w' jobStatus b j0 s = (j1', s1')"
    by (cases "updateJobInfo cfg ?w' jobStatus b j0 s")
  have j: "j1' = j1" using updateJobInfo_sink(1) [where cfg = cfg and w = w and f = f and jobStatus = jobStatus and b = b and j = j0 and s = s] u u' by simp
  have e: "eraseDelivery s1' = eraseDelivery s1"
    using updateJobInfo_sink(2) [where cfg = cfg and w = w and f = f and jobStatus = jobStatus and b = b and j = j0 and s = s] u u' by simp
  have d: "database s1 = database s" "database s1' = database s"
    using updateJobInfo_database [of cfg w jobStatus b j0 s]
      updateJobInfo_database [of cfg ?w' jobStatus b j0 s] u u' by simp_all
  obtain res D where up: "upsertJob (upsertJob_fault w (status_address jobStatus) b) j1 (database s) = (res, D)"
    by (cases "upsertJob (upsertJob_fault w (status_address jobStatus) b) j1 (database s)")
  have 1: "processJobStatus cfg w jobStatus b s = s1\<lparr>database := D\<rparr>"
    using Inr u up d by (simp add: processJobStatus_def j0_def)
  have 2: "processJobStatus cfg ?w' jobStatus b s = s1'\<lparr>database := D\<rparr>"
    using Inr u' up d j by (simp add: processJobStatus_def j0_def)
  show ?thesis unfolding 1 2 eraseDelivery_database e ..
qed

lemma updateJobInfo_trace:
  "trace (snd (updateJobInfo cfg w jobStatus b j s)) = trace s \<or>
   (\<exists>d. trace (snd (updateJobInfo cfg w jobStatus b j s)) = trace s @ [AlertSent d (discord_sendAlert w d)])"
  by (simp add: updateJobInfo_def Let_def sendAlert_def emit_def)

lemma alertsFor_same_trace: "trace s' = trace s \<Longrightarrow> alertsFor a s' = alertsFor a s"
  by (simp add: alertsFor_def)

text \<open>
  Claim C8. Whatever the sink returns for an alert, \<open>processJobStatus\<close> ends in the same
  state but for the delivery flag recorded with the alert: nothing is thrown and nothing is
  undone. In particular, on a healthy store, when an alert fires at a unit \<open>U\<close> other than 0 and
  the sink fails, the alert is recorded as attempted and not delivered, the stored
  \<open>alertsSent\<close> has grown by 1 and \<open>lastAlertBlock\<close> is \<open>U\<close>, and no later observation closer than
  the threshold to \<open>U\<close> fires again.
\<close>

theorem sink_failure_is_not_rolled_back:
  "(\<forall>f. eraseDelivery (processJobStatus cfg (w\<lparr>discord_sendAlert := f\<rparr>) jobStatus U s) =
        eraseDelivery (processJobStatus cfg w jobStatus U s)) \<and>
   (db (database s) = Some t \<and> a \<noteq> [] \<and> status_address jobStatus = a \<and>
    getJob_fault w a U = None \<and> upsertJob_fault w a U = NoFault \<and> U \<noteq> 0 \<and>
    (\<forall>d. \<not> discord_sendAlert w d) \<and>
    alertsFor a (processJobStatus cfg w jobStatus U s) = alertsFor a s @ [U] \<longrightarrow>
      (\<exists>d. trace (processJobStatus cfg w jobStatus U s) = trace s @ [AlertSent d False]) \<and>
      alertsSent (tracked a U (processJobStatus cfg w jobStatus U s)) = alertsSent (tracked a U s) + 1 \<and>
      lastAlertBlock (tracked a U (processJobStatus cfg w jobStatus U s)) = Some U \<and>
      (\<forall>w2 jobStatus2 U2.
          status_address jobStatus2 = a \<and> getJob_fault w2 a U2 = None \<and>
          upsertJob_fault w2 a U2 = NoFault \<and> U2 \<noteq> 0 \<and> U2 - U < alertThresholdBlocks cfg \<longrightarrow>
          alertsFor a (processJobStatus cfg w2 jobStatus2 U2 (processJobStatus cfg w jobStatus U s)) =
            alertsFor a (processJobStatus cfg w jobStatus U s)))"
proof (intro conjI allI impI)
  fix f show "eraseDelivery (processJobStatus cfg (w\<lparr>discord_sendAlert := f\<rparr>) jobStatus U s) =
        eraseDelivery (processJobStatus cfg w jobStatus U s)"
    by (rule processJobStatus_sink)
next
  assume h: "db (database s) = Some t \<and> a \<noteq> [] \<and> status_address jobStatus = a \<and>
    getJob_fault w a U = None \<and> upsertJob_fault w a U = NoFault \<and> U \<noteq> 0 \<and>
    (\<forall>d. \<not> discord_sendAlert w d) \<and>
    alertsFor a (processJobStatus cfg w jobStatus U s) = alertsFor a s @ [U]"
  let ?s' = "processJobStatus cfg w jobStatus U s"
  have h1: "db (database s) = Some t" and h2: "a \<noteq> []" and h3: "status_address jobStatus = a"
    and h4: "getJob_fault w a U = None" and h5: "upsertJob_fault w a U = NoFault" and h6: "U \<noteq> 0"
    and sink: "\<forall>d. \<not> discord_sendAlert w d"
    and fired: "alertsFor a ?s' = alertsFor a s @ [U]"
    using h by simp_all
  note step = processJobStatus_alert_step [OF h1 h2 h3 h4 h5 h6, where cfg = cfg]
  have due: "alertDue cfg jobStatus U (tracked a U s)"
    using step(1) fired by (simp split: if_splits)
  have tr: "trace ?s' = trace (snd (updateJobInfo cfg w jobStatus U (tracked a U s) s))"
    using processJobStatus_trace [of s t w jobStatus U cfg] h1 h3 h4 by simp
  have "trace ?s' \<noteq> trace s"
    using fired alertsFor_same_trace [of ?s' s a] by auto
  then show "\<exists>d. trace ?s' = trace s @ [AlertSent d False]"
    using updateJobInfo_trace [of cfg w jobStatus U "tracked a U s" s] tr sink by auto
  show "alertsSent (tracked a U ?s') = alertsSent (tracked a U s) + 1"
    using step(3) [of U] due by simp
  show la: "lastAlertBlock (tracked a U ?s') = Some U"
    using step(2) [of U] due by simp
  fix w2 :: World and jobStatus2 :: JobStatus and U2 :: int
  assume g: "status_address jobStatus2 = a \<and> getJob_fault w2 a U2 = None \<and>
          upsertJob_fault w2 a U2 = NoFault \<and> U2 \<noteq> 0 \<and> U2 - U < alertThresholdBlocks cfg"
  obtain t' where t': "db (database ?s') = Some t'"
    using processJobStatus_db [OF h1] by blast
  have g1: "status_address jobStatus2 = a" and g2: "getJob_fault w2 a U2 = None"
    and g3: "upsertJob_fault w2 a U2 = NoFault" and g4: "U2 \<noteq> 0"
    and g5: "U2 - U < alertThresholdBlocks cfg"
    using g by simp_all
  have "lastAlertBlock (tracked a U2 ?s') = Some U"
    using step(2) [of U2] due by simp
  then have "\<not> alertDue cfg jobStatus2 U2 (tracked a U2 ?s')"
    using g5 h6 by (simp add: alertDue_def)
  then show "alertsFor a (processJobStatus cfg w2 jobStatus2 U2 ?s') = alertsFor a ?s'"
    using processJobStatus_alert_step(1) [OF t' h2 g1 g2 g3 g4, where cfg = cfg] by simp
qed

theorem sink_failure_is_not_rolled_back_witness:
  "eraseDelivery (processJobStatus exampleConfig (failingSinkWorld\<lparr>discord_sendAlert := (\<lambda>d. True)\<rparr>)
      (workableAt 2) 2 workableOnceService) =
   eraseDelivery (processJobStatus exampleConfig failingSinkWorld (workableAt 2) 2 workableOnceService) \<and>
   alertsFor autoLineJob (processJobStatus exampleConfig failingSinkWorld (workableAt 2) 2 workableOnceService) = [2] \<and>
   alertsSent (tracked autoLineJob 2
      (processJobStatus exampleConfig failingSinkWorld (workableAt 2) 2 workableOnceService)) = 1 \<and>
   lastAlertBlock (tracked autoLineJob 2
      (processJobStatus exampleConfig failingSinkWorld (workableAt 2) 2 workableOnceService)) = Some 2 \<and>
   alertsFor autoLineJob (processJobStatus exampleConfig quietWorld (workableAt 3) 3
      (processJobStatus exampleConfig failingSinkWorld (workableAt 2) 2 workableOnceService)) = [2]"
proof -
  note main = sink_failure_is_not_rolled_back [where cfg = exampleConfig and w = failingSinkWorld
      and jobStatus = "workableAt 2" and U = 2 and s = workableOnceService and a = autoLineJob
      and t = workableOnceTable]
  have fired: "alertsFor autoLineJob
      (processJobStatus exampleConfig failingSinkWorld (workableAt 2) 2 workableOnceService) = [2]"
    by (simp add: failingSinkWorld_def workableOnceService_def workableOnceTable_def example_defs model_defs)
  have before: "alertsFor autoLineJob workableOnceService = []"
      "alertsSent (tracked autoLineJob 2 workableOnceService) = 0"
    by (simp_all add: workableOnceService_def workableOnceTable_def example_defs model_defs)
  have pre: "db (database workableOnceService) = Some workableOnceTable \<and> autoLineJob \<noteq> [] \<and>
      status_address (workableAt 2) = autoLineJob \<and>
      getJob_fault failingSinkWorld autoLineJob 2 = None \<and>
      upsertJob_fault failingSinkWorld autoLineJob 2 = NoFault \<and> (2::int) \<noteq> 0 \<and>
      (\<forall>d. \<not> discord_sendAlert failingSinkWorld d)"
    by (simp add: failingSinkWorld_def workableOnceService_def example_defs)
  have next_ok: "status_address (workableAt 3) = autoLineJob \<and> getJob_fault quietWorld autoLineJob 3 = None \<and>
      upsertJob_fault quietWorld autoLineJob 3 = NoFault \<and> (3::int) \<noteq> 0 \<and>
      3 - 2 < alertThresholdBlocks exampleConfig"
    by (simp add: example_defs)
  have post: "alertsSent (tracked autoLineJob 2
        (processJobStatus exampleConfig failingSinkWorld (workableAt 2) 2 workableOnceService)) = 1 \<and>
      lastAlertBlock (tracked autoLineJob 2
        (processJobStatus exampleConfig failingSinkWorld (workableAt 2) 2 workableOnceService)) = Some 2 \<and>
      alertsFor autoLineJob (processJobStatus exampleConfig quietWorld (workableAt 3) 3
        (processJobStatus exampleConfig failingSinkWorld (workableAt 2) 2 workableOnceService)) = [2]"
    using main [THEN conjunct2, rule_format, OF conjI [OF pre [THEN conjunct1]]] pre next_ok fired before
    by auto
  show ?thesis
    using main [THEN conjunct1, rule_format, of "\<lambda>d. True"] fired post by simp
qed

section \<open>Write failures of the store\<close>

lemma processJobStatus_RunThrows:
  assumes "db (database s) = Some t"
    and "upsertJob_fault w (status_address jobStatus) b = RunThrows err"
  shows "database (processJobStatus cfg w jobStatus b s) = database s"
proof (cases "getJob (getJob_fault w (status_address jobStatus) b) (status_address jobStatus) (database s)")
  case (Inl e)
  then show ?thesis by (simp add: processJobStatus_def)
next
  case (Inr found)
  define j0 where "j0 = (case found of Some j \<Rightarrow> j
      | None \<Rightarrow> \<lparr> address = status_address jobStatus, name = Some (getJobName (status_address jobStatus)),
          description = None, lastWorkedBlock = None, consecutiveWorkableBlocks = 0,
          isCurrentlyWorkable = False, lastCheckedBlock = b, alertsSent = 0, lastAlertBlock = None \<rparr>)"
  obtain j1 s1 where u: "updateJobInfo cfg w jobStatus b j0 s = (j1, s1)"
    by (cases "updateJobInfo cfg w jobStatus b j0 s")
  have d1: "database s1 = database s" using updateJobInfo_database [of cfg w jobStatus b j0 s] u by simp
  have "upsertJob (RunThrows err) j1 (database s) = (Inl err, database s)"
    using assms(1) by (simp add: upsertJob_def)
  then show ?thesis
    using Inr u d1 assms(2) by (simp add: processJobStatus_def j0_def)
qed

lemma processJobStatus_SaveThrows:
  assumes "db (database s) = Some t"
    and "getJob_fault w (status_address jobStatus) b = None"
    and "upsertJob_fault w (status_address jobStatus) b = SaveThrows err"
  shows "dbFile (database (processJobStatus cfg w jobStatus b s)) = dbFile (database s) \<and>
         db (database (processJobStatus cfg w jobStatus b s)) =
           Some (t(status_address jobStatus \<mapsto>
             upsertParams (fst (updateJobInfo cfg w jobStatus b (tracked (status_address jobStatus) b s) s))))"
proof -
  let ?a = "status_address jobStatus"
  obtain found where g: "getJob None ?a (database s) = Inr found"
    using getJob_total [OF assms(1)] by blast
  let ?j0 = "tracked ?a b s"
  have adr: "address ?j0 = ?a" by (rule tracked_address)
  obtain j1 s1 where u: "updateJobInfo cfg w jobStatus b ?j0 s = (j1, s1)"
    by (cases "updateJobInfo cfg w jobStatus b ?j0 s")
  have a1: "address j1 = ?a" using updateJobInfo_address [of cfg w jobStatus b ?j0 s] u adr by simp
  have d1: "database s1 = database s" using updateJobInfo_database [of cfg w jobStatus b ?j0 s] u by simp
  have "processJobStatus cfg w jobStatus b s = s1\<lparr>database := snd (upsertJob (SaveThrows err) j1 (database s1))\<rparr>"
    using g u assms(2,3) by (cases found) (simp_all add: processJobStatus_def tracked_def split: prod.splits)
  then show ?thesis
    using assms(1) d1 a1 u by (simp add: upsertJob_def)
qed

lemma monitoringLoop_brokenStoreWorld:
  "monitoringLoop exampleConfig brokenStoreWorld twoJobsService =
     twoJobsService
       \<lparr>database :=
          \<lparr> db = Some (twoJobsTable(lerpJob \<mapsto>
                  \<lparr> row_name = Some ''LerpJob'', last_worked_block = None,
                    consecutive_workable_blocks = 1, is_currently_workable = 1,
                    last_checked_block = 1, alerts_sent = 0, last_alert_block = None \<rparr>)),
            dbFile = Some (twoJobsTable(lerpJob \<mapsto>
                  \<lparr> row_name = Some ''LerpJob'', last_worked_block = None,
                    consecutive_workable_blocks = 1, is_currently_workable = 1,
                    last_checked_block = 1, alerts_sent = 0, last_alert_block = None \<rparr>)) \<rparr>,
        lastProcessedBlock := 1,
        trace := [Attempt 1 0]\<rparr>"
  by (simp add: monitoringLoop_def getLatestBlock_def processBlocks.simps processBlockWithRetry_def
      processBlockWithRetry_from.simps processBlock_def checkMultipleJobsWorkable_def
      checkJobWorkable_def isRateLimitingError_def brokenStoreWorld_def twoJobsService_def
      twoJobsTable_def initialRow_def lerpJob_def example_defs model_defs)

text \<open>
  Claim C5, as amended. A write failure of the store during a tick is caught and logged
  inside \<open>processJobStatus\<close> and goes no further: the batch of the block still succeeds, with
  every job status processed in turn, and the cursor advances over the whole window. When
  the statement itself fails the store is left as it was, so the job's next observation
  starts from its last stored state; when only the write of the database file fails, the
  file is as before and the row in memory has been replaced.
\<close>

theorem write_failure_is_caught_in_processJobStatus:
  assumes "db (database s) = Some t"
  shows "(upsertJob_fault w (status_address jobStatus) b = RunThrows err \<longrightarrow>
            database (processJobStatus cfg w jobStatus b s) = database s) \<and>
         (getJob_fault w (status_address jobStatus) b = None \<and>
          upsertJob_fault w (status_address jobStatus) b = SaveThrows err \<longrightarrow>
            dbFile (database (processJobStatus cfg w jobStatus b s)) = dbFile (database s) \<and>
            (\<exists>row. db (database (processJobStatus cfg w jobStatus b s)) =
                     Some (t(status_address jobStatus \<mapsto> row)))) \<and>
         (checkMultipleJobsWorkable w (jobAddresses s) b k = Inr jobStatuses \<longrightarrow>
            processBlock cfg w b k s =
              (Inr (), foldl (\<lambda>s' jobStatus. processJobStatus cfg w jobStatus b s') s jobStatuses)) \<and>
         (getLatestBlock w = Inr H \<and> lastProcessedBlock s < H \<and> 0 \<le> maxBlocksPerQuery cfg \<longrightarrow>
            lastProcessedBlock (monitoringLoop cfg w s) =
              lastProcessedBlock s + min (H - lastProcessedBlock s) (maxBlocksPerQuery cfg))"
proof (intro conjI impI)
  assume "upsertJob_fault w (status_address jobStatus) b = RunThrows err"
  then show "database (processJobStatus cfg w jobStatus b s) = database s"
    by (rule processJobStatus_RunThrows [OF assms])
next
  assume h: "getJob_fault w (status_address jobStatus) b = None \<and>
          upsertJob_fault w (status_address jobStatus) b = SaveThrows err"
  have h1: "getJob_fault w (status_address jobStatus) b = None"
    and h2: "upsertJob_fault w (status_address jobStatus) b = SaveThrows err"
    using h by simp_all
  note st = processJobStatus_SaveThrows [OF assms h1 h2, of cfg]
  show "dbFile (database (processJobStatus cfg w jobStatus b s)) = dbFile (database s)"
    using st by blast
  show "\<exists>row. db (database (processJobStatus cfg w jobStatus b s)) =
                     Some (t(status_address jobStatus \<mapsto> row))"
    using st by blast
next
  assume "checkMultipleJobsWorkable w (jobAddresses s) b k = Inr jobStatuses"
  then show "processBlock cfg w b k s =
              (Inr (), foldl (\<lambda>s' jobStatus. processJobStatus cfg w jobStatus b s') s jobStatuses)"
    by (simp add: processBlock_def)
next
  assume "getLatestBlock w = Inr H \<and> lastProcessedBlock s < H \<and> 0 \<le> maxBlocksPerQuery cfg"
  then show "lastProcessedBlock (monitoringLoop cfg w s) =
              lastProcessedBlock s + min (H - lastProcessedBlock s) (maxBlocksPerQuery cfg)"
    using monitoringLoop_cursor by blast
qed

theorem write_failure_is_caught_in_processJobStatus_witness:
  "db (database twoJobsService) = Some twoJobsTable \<and>
   upsertJob_fault brokenStoreWorld (status_address (workableAt 1)) 1 = RunThrows (Error ''disk I/O error'') \<and>
   database (processJobStatus exampleConfig brokenStoreWorld (workableAt 1) 1 twoJobsService) =
     database twoJobsService \<and>
   lastProcessedBlock (monitoringLoop exampleConfig brokenStoreWorld twoJobsService) = 1"
proof -
  have d: "db (database twoJobsService) = Some twoJobsTable" by (simp add: twoJobsService_def)
  note main = write_failure_is_caught_in_processJobStatus [OF d, where w = brokenStoreWorld
      and jobStatus = "workableAt 1" and b = 1 and err = "Error ''disk I/O error''"
      and cfg = exampleConfig and H = 1]
  have f: "upsertJob_fault brokenStoreWorld (status_address (workableAt 1)) 1 =
      RunThrows (Error ''disk I/O error'')"
    by (simp add: brokenStoreWorld_def workableAt_def)
  have head: "getLatestBlock brokenStoreWorld = Inr 1"
    by (simp add: getLatestBlock_def brokenStoreWorld_def)
  have l: "lastProcessedBlock twoJobsService = 0" "maxBlocksPerQuery exampleConfig = 100"
    by (simp_all add: twoJobsService_def exampleConfig_def)
  have 1: "database (processJobStatus exampleConfig brokenStoreWorld (workableAt 1) 1 twoJobsService) =
     database twoJobsService"
    using main [THEN conjunct1] f by simp
  have 2: "lastProcessedBlock (monitoringLoop exampleConfig brokenStoreWorld twoJobsService) = 1"
    using main [THEN conjunct2, THEN conjunct2, THEN conjunct2] head l by simp
  show ?thesis using d f 1 2 by simp
qed

text \<open>
  Claim C5 as stated fails: in this tick the write of the first job's row raises, and the
  tick is not aborted: the second job of the same block is processed and stored afterwards,
  the block is not skipped, and the cursor advances.
\<close>

theorem tick_survives_write_failure:
  "fst (upsertJob (upsertJob_fault brokenStoreWorld autoLineJob 1) (tracked autoLineJob 1 twoJobsService)
        (database twoJobsService)) = Inl (Error ''disk I/O error'') \<and>
   jobAddresses twoJobsService = [autoLineJob, lerpJob] \<and>
   lastCheckedBlock (tracked autoLineJob 1 (monitoringLoop exampleConfig brokenStoreWorld twoJobsService)) = 0 \<and>
   lastCheckedBlock (tracked lerpJob 1 (monitoringLoop exampleConfig brokenStoreWorld twoJobsService)) = 1 \<and>
   consecutiveWorkableBlocks (tracked lerpJob 1 (monitoringLoop exampleConfig brokenStoreWorld twoJobsService)) = 1 \<and>
   skippedBlocks (monitoringLoop exampleConfig brokenStoreWorld twoJobsService) = [] \<and>
   lastProcessedBlock twoJobsService = 0 \<and>
   lastProcessedBlock (monitoringLoop exampleConfig brokenStoreWorld twoJobsService) = 1"
  unfolding monitoringLoop_brokenStoreWorld
  by (simp add: upsertJob_def brokenStoreWorld_def twoJobsService_def twoJobsTable_def initialRow_def
      tracked_def getJob_def skippedBlocks_def autoLineJob_def lerpJob_def
      orUndefinedNum_def orUndefinedStr_def truthyNum_def truthyStr_def)

section \<open>Timer fires and ticks in flight\<close>

lemma timer_fires_accumulate:
  "monitoringInterval s \<Longrightarrow>
   ticksInFlight (foldl schedulerStep s (replicate n TimerFired)) = ticksInFlight s + n \<and>
   monitoringInterval (foldl schedulerStep s (replicate n TimerFired))"
  by (induction n arbitrary: s) (simp_all add: timerCallback_def)

text \<open>
  Claim C9, as amended. Nothing drops a timer fire that arrives while a tick is in progress:
  while the timer is armed every fire begins another execution of the scan, so after
  \<open>start\<close> and \<open>n\<close> fires with no tick settled, \<open>n + 1\<close> executions are in flight. What is dropped
  is a second \<open>start\<close> of a running service, and a timer fire once \<open>stop\<close> has cleared the timer.
\<close>

theorem timer_fire_starts_a_tick_unconditionally:
  "(monitoringInterval s \<longrightarrow> ticksInFlight (timerCallback s) = ticksInFlight s + 1) \<and>
   (\<not> monitoringInterval s \<longrightarrow> timerCallback s = s) \<and>
   (isRunning s \<longrightarrow> start s = s \<and> \<not> monitoringInterval (stop s)) \<and>
   (\<not> isRunning s \<longrightarrow>
      ticksInFlight (foldl schedulerStep s (StartCalled # replicate n TimerFired)) =
        ticksInFlight s + n + 1)"
proof (intro conjI impI)
  assume "\<not> isRunning s"
  then have "monitoringInterval (start s)" "ticksInFlight (start s) = ticksInFlight s + 1"
    by (simp_all add: start_def)
  then show "ticksInFlight (foldl schedulerStep s (StartCalled # replicate n TimerFired)) =
        ticksInFlight s + n + 1"
    using timer_fires_accumulate [of "start s" n] by simp
qed (simp_all add: timerCallback_def start_def stop_def)

theorem timer_fire_starts_a_tick_unconditionally_witness:
  "\<not> isRunning idleService \<and> monitoringInterval (start idleService) \<and>
   ticksInFlight (timerCallback (start idleService)) = 2 \<and>
   ticksInFlight (foldl schedulerStep idleService (StartCalled # replicate 3 TimerFired)) = 4 \<and>
   start (start idleService) = start idleService \<and>
   timerCallback (stop (start idleService)) = stop (start idleService)"
proof -
  have i: "\<not> isRunning idleService" by (simp add: idleService_def)
  have r: "isRunning (start idleService)" "monitoringInterval (start idleService)"
    "ticksInFlight (start idleService) = 1"
    by (simp_all add: start_def idleService_def)
  have 1: "ticksInFlight (timerCallback (start idleService)) = 2"
    using timer_fire_starts_a_tick_unconditionally [of "start idleService", THEN conjunct1] r by simp
  have 2: "ticksInFlight (foldl schedulerStep idleService (StartCalled # replicate 3 TimerFired)) = 4"
    using timer_fire_starts_a_tick_unconditionally [of idleService 3, THEN conjunct2, THEN conjunct2,
        THEN conjunct2] i
    by (simp add: idleService_def)
  have 3: "start (start idleService) = start idleService"
       "\<not> monitoringInterval (stop (start idleService))"
    using timer_fire_starts_a_tick_unconditionally [of "start idleService", THEN conjunct2,
        THEN conjunct2, THEN conjunct1] r by simp_all
  have 4: "timerCallback (stop (start idleService)) = stop (start idleService)"
    using timer_fire_starts_a_tick_unconditionally [of "stop (start idleService)", THEN conjunct2,
        THEN conjunct1] 3(2) by simp
  show ?thesis using i r(2) 1 2 3(1) 4 by simp
qed

text \<open>
  Claim C9 as stated fails: the service is started, its first tick is still in flight, the
  timer fires once, and two executions of the scan are in flight.
\<close>

theorem two_ticks_in_flight:
  "ticksInFlight (foldl schedulerStep idleService [StartCalled]) = 1 \<and>
   ticksInFlight (foldl schedulerStep idleService [StartCalled, TimerFired]) = 2 \<and>
   \<not> (\<forall>evs. ticksInFlight (foldl schedulerStep idleService evs) \<le> 1)"
proof -
  have a: "ticksInFlight (foldl schedulerStep idleService [StartCalled]) = 1"
    by (simp add: start_def idleService_def)
  have b: "ticksInFlight (foldl schedulerStep idleService [StartCalled, TimerFired]) = 2"
    by (simp add: start_def timerCallback_def idleService_def)
  have "\<not> ticksInFlight (foldl schedulerStep idleService [StartCalled, TimerFired]) \<le> 1"
    using b by simp
  then have "\<not> (\<forall>evs. ticksInFlight (foldl schedulerStep idleService evs) \<le> 1)" by blast
  then show ?thesis using a b by blast
qed

end
